theory Spec2Isabelle
  imports Main
begin

section \<open>Staged records and the bulk-index wire payload (02\_sync.js)\<close>

text \<open>
  Errors are carried as values: \<open>Inl msg\<close> is a thrown exception with \<open>error.message = msg\<close>.
\<close>

type_synonym error = string

text \<open>
  A staged record as \<open>dynamicMicroBatch\<close> reads it: the numeric \<open>record.id\<close> and the
  UTF-8 bytes of \<open>JSON.stringify(record)\<close>.
\<close>

record rec =
  rec_id :: nat
  rec_json :: string

definition INDEX_NAME :: string where
  "INDEX_NAME = ''pageseeker_response_opensearch''"

definition INITIAL_BATCH_SIZE :: nat where
  "INITIAL_BATCH_SIZE = 25"

definition MAX_PAYLOAD_MB :: nat where
  "MAX_PAYLOAD_MB = 2"

text \<open>\<open>record.id.toString()\<close> on a non-negative integer: its decimal digits.\<close>

definition digit :: "nat \<Rightarrow> char" where
  "digit d = char_of (48 + d)"

fun toString :: "nat \<Rightarrow> string" where
  "toString n = (if n < 10 then [digit n] else toString (n div 10) @ [digit (n mod 10)])"

declare toString.simps [simp del]

definition dq :: char where
  "dq = CHR 0x22"

text \<open>
  \<open>JSON.stringify({ index: { _index: INDEX_NAME, _id: record.id.toString() } })\<close>.
\<close>

definition actionJson :: "rec \<Rightarrow> string" where
  "actionJson r =
     ''{'' @ [dq] @ ''index'' @ [dq] @ '':{'' @ [dq] @ ''_index'' @ [dq] @ '':'' @ [dq] @ INDEX_NAME @ [dq]
       @ '','' @ [dq] @ ''_id'' @ [dq] @ '':'' @ [dq] @ toString (rec_id r) @ [dq] @ ''}}''"

text \<open>
  \<open>batch.flatMap(record => [{ index: ... }, record])\<close>: the elements of the bulk body, each as
  its JSON text.
\<close>

definition bulkBody :: "rec list \<Rightarrow> string list" where
  "bulkBody batch = concat (map (\<lambda>r. [actionJson r, rec_json r]) batch)"

fun joinComma :: "string list \<Rightarrow> string" where
  "joinComma [] = []"
| "joinComma [x] = x"
| "joinComma (x # y # ys) = x @ '','' @ joinComma (y # ys)"

text \<open>\<open>JSON.stringify\<close> of an array whose elements have the given JSON texts.\<close>

definition stringifyArray :: "string list \<Rightarrow> string" where
  "stringifyArray xs = ''['' @ joinComma xs @ '']''"

text \<open>\<open>Buffer.byteLength(JSON.stringify(testBody), 'utf8')\<close>.\<close>

definition payloadSize :: "string list \<Rightarrow> nat" where
  "payloadSize body = length (stringifyArray body)"

text \<open>
  The bytes one record adds to a non-empty payload: its action line, its own JSON text and
  two separating commas (or a comma and a bracket).
\<close>

definition recordBytes :: "rec \<Rightarrow> nat" where
  "recordBytes r = length (actionJson r) + length (rec_json r) + 2"

text \<open>
  The test \<open>payloadSize / (1024 * 1024) <= MAX_PAYLOAD_MB\<close>. The division is by a power of two
  and so exact on a double: the test is the integer comparison below.
\<close>

definition fitsPayload :: "nat \<Rightarrow> bool" where
  "fitsPayload payloadSize' \<longleftrightarrow> payloadSize' \<le> MAX_PAYLOAD_MB * (1024 * 1024)"

text \<open>
  The body of the probing loop up to its test: slice the first \<open>testSize\<close> records, build
  the bulk body, measure it.
\<close>

definition probeFits :: "rec list \<Rightarrow> nat \<Rightarrow> bool" where
  "probeFits records testSize \<longleftrightarrow> fitsPayload (payloadSize (bulkBody (take testSize records)))"

text \<open>
  The probing loop of \<open>dynamicMicroBatch\<close>:
  \<^verbatim>\<open>for (let testSize = 1; testSize <= maxTestSize; testSize++)\<close>, which records the size
  when the payload fits and breaks when it does not.
\<close>

function probeLoop :: "rec list \<Rightarrow> nat \<Rightarrow> nat \<Rightarrow> nat \<Rightarrow> nat" where
  "probeLoop records maxTestSize testSize finalBatchSize =
     (if testSize \<le> maxTestSize then
        (if probeFits records testSize
         then probeLoop records maxTestSize (testSize + 1) testSize
         else finalBatchSize)
      else finalBatchSize)"
  by pat_completeness auto
termination
  by (relation "measure (\<lambda>(records, maxTestSize, testSize, finalBatchSize). Suc maxTestSize - testSize)") auto

text \<open>The batch size \<open>dynamicMicroBatch\<close> uses: \<open>finalBatchSize\<close> after the probing loop.\<close>

definition probeBatchSize :: "rec list \<Rightarrow> nat" where
  "probeBatchSize records = probeLoop records (min INITIAL_BATCH_SIZE (length records)) 1 1"

section \<open>The collaborators of the indexer and the janitor\<close>

text \<open>
  The object store and the search index are outside the program. Every command sent to them
  is appended to a trace, and the reply to a command is given by the environment as a
  function of the trace so far, so that the same command may be answered differently the
  second time. \<open>Inl msg\<close> is a command that throws.
\<close>

datatype s3_body =
    SyncLogBody "string option" "nat list"
  | CleanupLogBody nat nat nat "string list"

datatype event =
    ListObjects string
  | GetObject string
  | DeleteObject string
  | PutObject string s3_body
  | EnsureIndex
  | BulkRequest "string list"
  | Sleep nat

text \<open>One entry of \<open>response.body.items\<close>: the action results it may carry.\<close>

record bulk_action =
  status :: int

record bulk_item =
  item_index :: "bulk_action option"
  item_create :: "bulk_action option"
  item_update :: "bulk_action option"

record bulk_response =
  errors :: bool
  items :: "bulk_item list option"

text \<open>
  \<^item> \<open>os_bulk\<close>: \<open>osClient.bulk({ body })\<close>;
  \<^item> \<open>s3_list\<close>: the paginated \<open>ListObjectsV2\<close> loop as a whole, giving the keys of all pages
    or throwing when a page request throws;
  \<^item> \<open>s3_get\<close>: \<open>GetObject\<close>, \<open>transformToString\<close>, the split into lines and
    \<open>JSON.parse\<close> of each line (lines 150--160 of 02\_sync.js), which throw on an unreadable or
    unparseable blob;
  \<^item> \<open>s3_delete\<close>, \<open>s3_put\<close>: \<open>DeleteObject\<close> and \<open>PutObject\<close>;
  \<^item> \<open>clock\<close>: \<open>new Date().toISOString()\<close>;
  \<^item> \<open>localeSort\<close>: \<open>files.sort((a, b) => a.Key.localeCompare(b.Key))\<close> on the keys.
\<close>

record env =
  os_bulk :: "event list \<Rightarrow> string list \<Rightarrow> error + bulk_response"
  s3_list :: "event list \<Rightarrow> string \<Rightarrow> error + string list"
  s3_get :: "event list \<Rightarrow> string \<Rightarrow> error + rec list"
  s3_delete :: "event list \<Rightarrow> string \<Rightarrow> error + unit"
  s3_put :: "event list \<Rightarrow> string \<Rightarrow> error + unit"
  clock :: "event list \<Rightarrow> string"
  localeSort :: "string list \<Rightarrow> string list"

section \<open>dynamicMicroBatch (02\_sync.js)\<close>

text \<open>\<open>item.index || item.create || item.update\<close>: the first action result present.\<close>

definition itemAction :: "bulk_item \<Rightarrow> bulk_action option" where
  "itemAction item =
     (case item_index item of
        Some a \<Rightarrow> Some a
      | None \<Rightarrow> (case item_create item of Some a \<Rightarrow> Some a | None \<Rightarrow> item_update item))"

text \<open>\<open>action && action.status >= 200 && action.status < 300\<close>.\<close>

definition itemSucceeded :: "bulk_item \<Rightarrow> bool" where
  "itemSucceeded item =
     (case itemAction item of None \<Rightarrow> False | Some action \<Rightarrow> 200 \<le> status action \<and> status action < 300)"

text \<open>\<open>(response.body.items || []).filter(...)\<close>.\<close>

definition successItems :: "bulk_response \<Rightarrow> bulk_item list" where
  "successItems response =
     filter itemSucceeded (case items response of None \<Rightarrow> [] | Some its \<Rightarrow> its)"

text \<open>
  What a response adds to \<open>syncedCount\<close>: the successful items when \<open>errors\<close> is set, the
  whole batch otherwise. The first attempt and the retry test \<open>errors\<close> in opposite order and
  add the same.
\<close>

definition confirmed :: "bulk_response \<Rightarrow> rec list \<Rightarrow> nat" where
  "confirmed response batch =
     (if errors response then length (successItems response) else length batch)"

text \<open>
  One pass of the body of the batch loop (lines 93--138): the bulk request for the window
  \<open>batch\<close>, and after a throw a 2000 ms sleep and one more request with the same body.
\<close>

definition bulkWindow :: "env \<Rightarrow> rec list \<Rightarrow> nat \<times> event list \<Rightarrow> nat \<times> event list" where
  "bulkWindow env batch = (\<lambda>(syncedCount, tr).
     let body = bulkBody batch in
     case os_bulk env tr body of
       Inr response \<Rightarrow> (syncedCount + confirmed response batch, tr @ [BulkRequest body])
     | Inl e \<Rightarrow>
         (let tr1 = tr @ [BulkRequest body, Sleep 2000] in
          case os_bulk env tr1 body of
            Inr retryResponse \<Rightarrow> (syncedCount + confirmed retryResponse batch, tr1 @ [BulkRequest body])
          | Inl retryError \<Rightarrow> (syncedCount, tr1 @ [BulkRequest body])))"

text \<open>
  \<^verbatim>\<open>for (let i = 0; i < records.length; i += finalBatchSize)\<close>. The loop advances only for a
  positive \<open>finalBatchSize\<close>, and the function is specified for those only; the probe never
  gives 0.
\<close>

function (sequential) batchLoop :: "env \<Rightarrow> rec list \<Rightarrow> nat \<Rightarrow> nat \<Rightarrow> nat \<times> event list \<Rightarrow> nat \<times> event list" where
  "batchLoop env records (Suc n) i st =
     (if i < length records
      then batchLoop env records (Suc n) (i + Suc n) (bulkWindow env (take (Suc n) (drop i records)) st)
      else st)"
| "batchLoop env records 0 i st = undefined"
  by pat_completeness auto
termination
  by (relation "measure (\<lambda>(env, records, finalBatchSize, i, st). length records - i)") auto

definition dynamicMicroBatch :: "env \<Rightarrow> rec list \<Rightarrow> event list \<Rightarrow> nat \<times> event list" where
  "dynamicMicroBatch env records tr = batchLoop env records (probeBatchSize records) 0 (0, tr)"

section \<open>syncFile and syncAll (02\_sync.js)\<close>

record file_result =
  f_success :: bool
  f_error :: "error option"
  f_syncedRecords :: nat
  f_syncedIds :: "nat list"

definition syncFile :: "env \<Rightarrow> string \<Rightarrow> event list \<Rightarrow> file_result \<times> event list" where
  "syncFile env filename tr =
     (case s3_get env tr filename of
        Inl e \<Rightarrow>
          (\<lparr>f_success = False, f_error = Some e, f_syncedRecords = 0, f_syncedIds = []\<rparr>,
           tr @ [GetObject filename])
      | Inr records \<Rightarrow>
          (let (syncedCount, tr2) = dynamicMicroBatch env records (tr @ [GetObject filename, EnsureIndex]);
               syncedIds = map rec_id records
           in if syncedCount \<ge> length records then
                (case s3_delete env tr2 filename of
                   Inl e \<Rightarrow>
                     (\<lparr>f_success = False, f_error = Some e, f_syncedRecords = 0, f_syncedIds = []\<rparr>,
                      tr2 @ [DeleteObject filename])
                 | Inr u \<Rightarrow>
                     (\<lparr>f_success = True, f_error = None, f_syncedRecords = syncedCount, f_syncedIds = syncedIds\<rparr>,
                      tr2 @ [DeleteObject filename]))
              else
                (\<lparr>f_success = True, f_error = None, f_syncedRecords = syncedCount, f_syncedIds = syncedIds\<rparr>,
                 tr2)))"

record sync_result =
  s_success :: bool
  s_error :: "error option"
  s_syncedFiles :: nat
  s_totalFiles :: "nat option"
  s_totalRecords :: nat
  s_syncedIdsCount :: "nat option"

text \<open>\<open>Set.add\<close> on a set kept in insertion order, as \<open>Array.from\<close> reads it back.\<close>

definition setAdd :: "nat list \<Rightarrow> nat \<Rightarrow> nat list" where
  "setAdd s x = (if x \<in> set s then s else s @ [x])"

text \<open>The loop over the sorted files (lines 239--254).\<close>

fun syncFiles :: "env \<Rightarrow> string list \<Rightarrow> nat \<times> nat \<times> nat list \<times> event list \<Rightarrow> nat \<times> nat \<times> nat list \<times> event list" where
  "syncFiles env [] acc = acc"
| "syncFiles env (file # files) (totalSynced, successCount, allSyncedIds, tr) =
     (let (result, tr') = syncFile env file tr in
      if f_success result
      then syncFiles env files
             (totalSynced + f_syncedRecords result, successCount + 1,
              foldl setAdd allSyncedIds (f_syncedIds result), tr')
      else syncFiles env files (totalSynced, successCount, allSyncedIds, tr'))"

text \<open>\<open>.replace(/[:.]/g, '-')\<close>.\<close>

definition replaceColonDot :: "string \<Rightarrow> string" where
  "replaceColonDot s = map (\<lambda>c. if c = CHR '':'' \<or> c = CHR ''.'' then CHR ''-'' else c) s"

definition syncLogPath :: "string option \<Rightarrow> string \<Rightarrow> string" where
  "syncLogPath workflowId stamp =
     ''log/sync_log_ids_''
       @ (case workflowId of None \<Rightarrow> [] | Some w \<Rightarrow> if w = [] then [] else w @ ''_'')
       @ replaceColonDot stamp @ ''.json''"

definition syncAll :: "env \<Rightarrow> string option \<Rightarrow> event list \<Rightarrow> sync_result \<times> event list" where
  "syncAll env workflowId tr =
     (case s3_list env tr ''unsynced_'' of
        Inl e \<Rightarrow>
          (\<lparr>s_success = False, s_error = Some e, s_syncedFiles = 0, s_totalFiles = Some 0,
            s_totalRecords = 0, s_syncedIdsCount = None\<rparr>,
           tr @ [ListObjects ''unsynced_''])
      | Inr listed \<Rightarrow>
          (let tr1 = tr @ [ListObjects ''unsynced_''] in
           if length listed = 0 then
             (\<lparr>s_success = True, s_error = None, s_syncedFiles = 0, s_totalFiles = None,
               s_totalRecords = 0, s_syncedIdsCount = None\<rparr>, tr1)
           else
             (let files = localeSort env listed;
                  (totalSynced, successCount, allSyncedIds, tr2) = syncFiles env files (0, 0, [], tr1);
                  done = \<lparr>s_success = True, s_error = None, s_syncedFiles = successCount,
                          s_totalFiles = Some (length files), s_totalRecords = totalSynced,
                          s_syncedIdsCount = Some (length allSyncedIds)\<rparr>
              in if length allSyncedIds > 0 then
                   (let key = syncLogPath workflowId (clock env tr2);
                        tr3 = tr2 @ [PutObject key (SyncLogBody workflowId allSyncedIds)]
                    in case s3_put env tr2 key of
                         Inl e \<Rightarrow>
                           (\<lparr>s_success = False, s_error = Some e, s_syncedFiles = 0, s_totalFiles = Some 0,
                             s_totalRecords = 0, s_syncedIdsCount = None\<rparr>, tr3)
                       | Inr u \<Rightarrow> (done, tr3))
                 else (done, tr2))))"

section \<open>cleanS3 (05\_clean\_s3.js, the second module of 06\_orchestrate.js)\<close>

text \<open>\<open>String.prototype.includes\<close>.\<close>

fun str_includes :: "string \<Rightarrow> string \<Rightarrow> bool" where
  "str_includes [] sub = (sub = [])"
| "str_includes (c # cs) sub = (take (length sub) (c # cs) = sub \<or> str_includes cs sub)"

definition keptKey :: "string \<Rightarrow> bool" where
  "keptKey key \<longleftrightarrow> str_includes key ''summary'' \<or> str_includes key ''log/''"

text \<open>
  The deletion loop (lines 321--333 of src/06\_orchestrate.js): one \<open>DeleteObject\<close> per file,
  awaited with no handler of its own, so a throw leaves the loop.
\<close>

fun deleteLoop :: "env \<Rightarrow> string list \<Rightarrow> nat \<Rightarrow> event list \<Rightarrow> (error + nat) \<times> event list" where
  "deleteLoop env [] deletedCount tr = (Inr deletedCount, tr)"
| "deleteLoop env (file # files) deletedCount tr =
     (case s3_delete env tr file of
        Inl e \<Rightarrow> (Inl e, tr @ [DeleteObject file])
      | Inr u \<Rightarrow> deleteLoop env files (deletedCount + 1) (tr @ [DeleteObject file]))"

record clean_result =
  c_success :: bool
  c_error :: "error option"
  c_totalFiles :: "nat option"
  c_filesDeleted :: "nat option"
  c_filesKept :: "nat option"

definition cleanFailed :: "error \<Rightarrow> clean_result" where
  "cleanFailed e =
     \<lparr>c_success = False, c_error = Some e, c_totalFiles = None, c_filesDeleted = None, c_filesKept = None\<rparr>"

definition cleanupLogPath :: "string \<Rightarrow> string" where
  "cleanupLogPath stamp = ''log/cleanup_log_'' @ replaceColonDot stamp @ ''.json''"

definition cleanS3 :: "env \<Rightarrow> event list \<Rightarrow> clean_result \<times> event list" where
  "cleanS3 env tr =
     (case s3_list env tr [] of
        Inl e \<Rightarrow> (cleanFailed e, tr @ [ListObjects []])
      | Inr files \<Rightarrow>
          (let filesToKeep = filter keptKey files;
               filesToDelete = filter (\<lambda>key. \<not> str_includes key ''summary'' \<and> \<not> str_includes key ''log/'') files
           in case deleteLoop env filesToDelete 0 (tr @ [ListObjects []]) of
                (Inl e, tr2) \<Rightarrow> (cleanFailed e, tr2)
              | (Inr deletedCount, tr2) \<Rightarrow>
                  (let key = cleanupLogPath (clock env tr2);
                       tr3 = tr2 @ [PutObject key
                                (CleanupLogBody (length files) deletedCount (length filesToKeep) filesToKeep)]
                   in case s3_put env tr2 key of
                        Inl e \<Rightarrow> (cleanFailed e, tr3)
                      | Inr u \<Rightarrow>
                          (\<lparr>c_success = True, c_error = None, c_totalFiles = Some (length files),
                            c_filesDeleted = Some deletedCount, c_filesKept = Some (length filesToKeep)\<rparr>,
                           tr3))))"

section \<open>testSync (03\_test.js, the second module of 01\_download.js)\<close>

record test_result =
  t_success :: bool
  t_totalRecords :: "int option"
  t_missing :: "int option"
  t_extra :: "int option"
  t_duplicates :: "nat option"
  t_error :: "error option"
  t_criticalMissing :: "int option"

definition testResult0 :: test_result where
  "testResult0 =
     \<lparr>t_success = False, t_totalRecords = None, t_missing = None, t_extra = None,
      t_duplicates = None, t_error = None, t_criticalMissing = None\<rparr>"

text \<open>
  The count comparison (lines 252--273), on \<open>summary.totalRecords\<close> and \<open>osCount.body.count\<close>.
\<close>

definition compareCounts :: "int \<Rightarrow> int \<Rightarrow> test_result" where
  "compareCounts expected actual =
     (let missing = expected - actual in
      if missing = 0 then
        testResult0\<lparr>t_success := True, t_totalRecords := Some actual, t_missing := Some 0\<rparr>
      else if missing > 0 then
        testResult0\<lparr>t_success := False, t_totalRecords := Some actual, t_missing := Some missing\<rparr>
      else if expected = 0 then
        testResult0\<lparr>t_success := True, t_totalRecords := Some actual, t_missing := Some 0\<rparr>
      else if actual > expected then
        testResult0\<lparr>t_success := True, t_totalRecords := Some actual, t_missing := Some 0\<rparr>
      else
        testResult0\<lparr>t_success := False, t_totalRecords := Some actual, t_extra := Some \<bar>missing\<bar>\<rparr>)"

text \<open>
  The collaborators of \<open>testSync\<close>, each called once:
  \<^item> \<open>te_count\<close>: \<open>osClient.count\<close>;
  \<^item> \<open>te_sample\<close>: the sample search and its printing;
  \<^item> \<open>te_buckets\<close>: the \<open>doc_count\<close> of each bucket of the terms aggregation on \<open>id\<close>;
  \<^item> \<open>te_listSummaries\<close>: the keys under \<open>log/download_summary_\<close> with their \<open>LastModified\<close>;
  \<^item> \<open>te_readSummary\<close>: \<open>GetObject\<close> and \<open>JSON.parse\<close> of a summary, giving its
    \<open>totalRecords\<close>.
\<close>

record test_env =
  te_count :: "error + int"
  te_sample :: "error + unit"
  te_buckets :: "error + nat list"
  te_listSummaries :: "error + (string \<times> int) list"
  te_readSummary :: "string \<Rightarrow> error + int"

text \<open>
  \<open>summaryFiles.sort((a, b) => new Date(b.LastModified) - new Date(a.LastModified))\<close>: a stable
  sort, latest first.
\<close>

definition sortLatestFirst :: "(string \<times> int) list \<Rightarrow> (string \<times> int) list" where
  "sortLatestFirst summaryFiles = sort_key (\<lambda>f. - snd f) summaryFiles"

definition testSync :: "test_env \<Rightarrow> test_result" where
  "testSync te =
     (case te_count te of
        Inl e \<Rightarrow> testResult0\<lparr>t_error := Some e\<rparr>
      | Inr count \<Rightarrow>
     (case te_sample te of
        Inl e \<Rightarrow> testResult0\<lparr>t_error := Some e\<rparr>
      | Inr u \<Rightarrow>
     (case te_buckets te of
        Inl e \<Rightarrow> testResult0\<lparr>t_error := Some e\<rparr>
      | Inr buckets \<Rightarrow>
          (let duplicates = filter (\<lambda>doc_count. doc_count > 1) buckets;
               countUnknown = testResult0\<lparr>t_success := True, t_totalRecords := Some count\<rparr>
           in if length duplicates > 0 then testResult0\<lparr>t_duplicates := Some (length duplicates)\<rparr>
              else
                (case te_listSummaries te of
                   Inl e \<Rightarrow> countUnknown
                 | Inr summaryFiles \<Rightarrow>
                     if length summaryFiles = 0 then countUnknown
                     else
                       (let latestSummary = hd (sortLatestFirst summaryFiles) in
                        case te_readSummary te (fst latestSummary) of
                          Inl e \<Rightarrow> countUnknown
                        | Inr totalRecords \<Rightarrow> compareCounts totalRecords count))))))"

section \<open>markAsSynced (04\_mark\_synced.js)\<close>

text \<open>
  The reply of the source store to one batched update: done, an \<open>error\<close> in the reply (the
  batch is skipped), or a thrown exception.
\<close>

datatype update_outcome = Updated | UpdateError error | UpdateThrew error

text \<open>
  \<^item> \<open>me_list\<close>: \<open>ListObjectsV2\<close> under a prefix, giving keys with their \<open>LastModified\<close>;
  \<^item> \<open>me_readLog\<close>: \<open>GetObject\<close> and \<open>JSON.parse\<close> of a sync log, giving \<open>syncedIds || []\<close>;
  \<^item> \<open>me_update\<close>: the update of \<open>opensearch_sync\<close> for a batch of identifiers.
\<close>

record mark_env =
  me_list :: "string \<Rightarrow> error + (string \<times> int) list"
  me_readLog :: "string \<Rightarrow> error + nat list"
  me_update :: "nat list \<Rightarrow> update_outcome"

record mark_result =
  m_success :: bool
  m_error :: "error option"
  m_totalUpdated :: "nat option"
  m_totalIds :: "nat option"
  m_logFiles :: "string list option"
  m_message :: "string option"

definition markResult0 :: mark_result where
  "markResult0 =
     \<lparr>m_success = False, m_error = None, m_totalUpdated = None, m_totalIds = None,
      m_logFiles = None, m_message = None\<rparr>"

definition NO_SYNC_LOGS :: error where
  "NO_SYNC_LOGS = ''No sync log files found''"

definition syncLogPrefix :: "string option \<Rightarrow> string" where
  "syncLogPrefix workflowId =
     (case workflowId of
        None \<Rightarrow> ''log/sync_log_ids_''
      | Some w \<Rightarrow> if w = [] then ''log/sync_log_ids_'' else ''log/sync_log_ids_'' @ w @ ''_'')"

text \<open>The loop reading every sync log into \<open>allIdsSet\<close> (lines 51--66).\<close>

fun readLogs :: "mark_env \<Rightarrow> (string \<times> int) list \<Rightarrow> nat list \<Rightarrow> error + nat list" where
  "readLogs me [] allIdsSet = Inr allIdsSet"
| "readLogs me (logFile # logFiles) allIdsSet =
     (case me_readLog me (fst logFile) of
        Inl e \<Rightarrow> Inl e
      | Inr ids \<Rightarrow> readLogs me logFiles (foldl setAdd allIdsSet ids))"

text \<open>
  \<^verbatim>\<open>for (let i = 0; i < syncedIds.length; i += batchSize)\<close> with \<open>batchSize = 1000\<close>.
\<close>

function updateBatches :: "mark_env \<Rightarrow> nat list \<Rightarrow> nat \<Rightarrow> nat \<Rightarrow> error + nat" where
  "updateBatches me syncedIds i totalUpdated =
     (if i < length syncedIds then
        (case me_update me (take 1000 (drop i syncedIds)) of
           UpdateThrew e \<Rightarrow> Inl e
         | UpdateError e \<Rightarrow> updateBatches me syncedIds (i + 1000) totalUpdated
         | Updated \<Rightarrow>
             updateBatches me syncedIds (i + 1000) (totalUpdated + length (take 1000 (drop i syncedIds))))
      else Inr totalUpdated)"
  by pat_completeness auto
termination
  by (relation "measure (\<lambda>(me, syncedIds, i, totalUpdated). length syncedIds - i)") auto

definition markAsSynced :: "mark_env \<Rightarrow> string option \<Rightarrow> mark_result" where
  "markAsSynced me workflowId =
     (case me_list me (syncLogPrefix workflowId) of
        Inl e \<Rightarrow> markResult0\<lparr>m_error := Some e, m_totalUpdated := Some 0\<rparr>
      | Inr listed \<Rightarrow>
          if length listed = 0 then markResult0\<lparr>m_error := Some NO_SYNC_LOGS\<rparr>
          else
            (let logFiles = sort_key snd listed in
             case readLogs me logFiles [] of
               Inl e \<Rightarrow> markResult0\<lparr>m_error := Some e, m_totalUpdated := Some 0\<rparr>
             | Inr syncedIds \<Rightarrow>
                 (case updateBatches me syncedIds 0 0 of
                    Inl e \<Rightarrow> markResult0\<lparr>m_error := Some e, m_totalUpdated := Some 0\<rparr>
                  | Inr totalUpdated \<Rightarrow>
                      markResult0\<lparr>m_success := True, m_totalUpdated := Some totalUpdated,
                                  m_totalIds := Some (length syncedIds),
                                  m_logFiles := Some (map fst logFiles)\<rparr>)))"

section \<open>orchestrate (06\_orchestrate.js and its variant in src/unnamed/part\_000)\<close>

record download_result =
  d_success :: bool
  d_totalRecords :: nat
  d_fileCount :: nat
  d_files :: "string list"

text \<open>
  The run summary handed to \<open>saveTimestampLog\<close>. \<open>JSON.stringify\<close> drops a key whose value is
  \<open>undefined\<close>: such a key is \<open>None\<close>.
\<close>

record summary =
  sm_workflowId :: "string option"
  sm_timestamp :: "int option"
  sm_startTime :: "int option"
  sm_endTime :: "int option"
  sm_duration :: "int option"
  sm_download :: download_result
  sm_sync :: sync_result
  sm_test :: test_result
  sm_mark :: "mark_result option"
  sm_clean :: clean_result
  sm_success :: bool

record orch_result =
  r_success :: bool
  r_step :: "string option"
  r_error :: "error option"
  r_summary :: "summary option"
  r_logFilename :: "string option"

text \<open>
  The stages are the functions \<open>orchestrate\<close> imports; it sees their results only.
  \<^item> \<open>o_download\<close>: \<open>downloadToS3()\<close>, which throws or returns its result;
  \<^item> \<open>o_sync n\<close>: the result of the call number \<open>n\<close> (from 0) of \<open>syncAll(workflowId)\<close>;
  \<^item> \<open>o_test n\<close>: the result of the call number \<open>n\<close> (from 0) of \<open>testSync()\<close>;
  \<^item> \<open>o_mark\<close>: the result of \<open>markAsSynced(workflowId)\<close>;
  \<^item> \<open>o_clean\<close>: the result of \<open>cleanS3()\<close>;
  \<^item> \<open>o_saveLog\<close>: \<open>saveTimestampLog(summary)\<close>, which throws or returns the log file name;
  \<^item> \<open>o_startTime\<close>, \<open>o_endTime\<close>: the clock in ms when the run starts and when the summary
    is built.
  \<open>syncAll\<close>, \<open>testSync\<close>, \<open>markAsSynced\<close> and \<open>cleanS3\<close> catch every error and do not throw.
\<close>

record orch_env =
  o_workflowId :: string
  o_startTime :: int
  o_endTime :: int
  o_download :: "error + download_result"
  o_sync :: "nat \<Rightarrow> sync_result"
  o_test :: "nat \<Rightarrow> test_result"
  o_mark :: mark_result
  o_clean :: clean_result
  o_saveLog :: "error + string"

datatype stage_event =
    CalledDownload
  | CalledSync
  | CalledTest
  | CalledMark
  | CalledClean
  | SaveLog summary

definition callSync :: "orch_env \<Rightarrow> stage_event list \<Rightarrow> sync_result \<times> stage_event list" where
  "callSync env tr = (o_sync env (count_list tr CalledSync), tr @ [CalledSync])"

definition callTest :: "orch_env \<Rightarrow> stage_event list \<Rightarrow> test_result \<times> stage_event list" where
  "callTest env tr = (o_test env (count_list tr CalledTest), tr @ [CalledTest])"

definition MAX_RETRIES :: nat where
  "MAX_RETRIES = 3"

text \<open>\<open>{ success: false, step, error }\<close>, and the \<open>{ success: false, error }\<close> of the outer catch.\<close>

definition failedAt :: "string \<Rightarrow> error option \<Rightarrow> orch_result" where
  "failedAt step e =
     \<lparr>r_success = False, r_step = Some step, r_error = e, r_summary = None, r_logFilename = None\<rparr>"

definition uncaught :: "error \<Rightarrow> orch_result" where
  "uncaught e =
     \<lparr>r_success = False, r_step = None, r_error = Some e, r_summary = None, r_logFilename = None\<rparr>"

text \<open>
  The retry loop, the same in both files:
  \<^verbatim>\<open>while (!currentTestResult.success && retryCount < MAX_RETRIES)\<close>. It ends with the return
  of the failure at step \<open>resync\<close> (\<open>Inl\<close>) or with the last test result (\<open>Inr\<close>), and gives
  \<open>retryCount\<close> too.
\<close>

function resyncLoop ::
  "orch_env \<Rightarrow> test_result \<Rightarrow> nat \<Rightarrow> stage_event list \<Rightarrow> (orch_result + test_result) \<times> nat \<times> stage_event list" where
  "resyncLoop env currentTestResult retryCount tr =
     (if \<not> t_success currentTestResult \<and> retryCount < MAX_RETRIES then
        (if \<not> s_success (fst (callSync env tr)) then
           (if retryCount + 1 \<ge> MAX_RETRIES
            then (Inl (failedAt ''resync'' (Some ''Re-sync failed after max retries'')),
                  retryCount + 1, snd (callSync env tr))
            else resyncLoop env currentTestResult (retryCount + 1) (snd (callSync env tr)))
         else resyncLoop env (fst (callTest env (snd (callSync env tr)))) (retryCount + 1)
                (snd (callTest env (snd (callSync env tr)))))
      else (Inr currentTestResult, retryCount, tr))"
  by pat_completeness auto
termination
  by (relation "measure (\<lambda>(env, currentTestResult, retryCount, tr). MAX_RETRIES - retryCount)") auto

text \<open>
  The message of the \<open>TypeError\<close> thrown by reading \<open>markResult.totalUpdated\<close> when
  \<open>markResult\<close> is \<open>undefined\<close>.
\<close>

definition TYPE_ERROR_totalUpdated :: error where
  "TYPE_ERROR_totalUpdated =
     ''Cannot read properties of undefined (reading '' @ [CHR 0x27] @ ''totalUpdated'' @ [CHR 0x27] @ '')''"

text \<open>
  Steps 5 and 6, the same in both files but for the variable \<open>markResult\<close> they read: clean,
  build the summary, save it, print the final results, return. \<open>markResult\<close> is \<open>None\<close>
  when the variable in scope holds \<open>undefined\<close>; printing \<open>markResult.totalUpdated\<close> then
  throws, inside the outer \<open>try\<close>.
\<close>

definition cleanAndLog ::
  "orch_env \<Rightarrow> download_result \<Rightarrow> sync_result \<Rightarrow> test_result \<Rightarrow> mark_result option \<Rightarrow>
   stage_event list \<Rightarrow> orch_result \<times> stage_event list" where
  "cleanAndLog env downloadResult syncResult testResult markResult tr =
     (let cleanResult = o_clean env; tr1 = tr @ [CalledClean] in
      if \<not> c_success cleanResult then (failedAt ''clean'' (c_error cleanResult), tr1)
      else
        (let duration = o_endTime env - o_startTime env;
             summary = \<lparr>sm_workflowId = None, sm_timestamp = None,
                        sm_startTime = Some (o_startTime env), sm_endTime = Some (o_endTime env),
                        sm_duration = Some duration,
                        sm_download = downloadResult, sm_sync = syncResult, sm_test = testResult,
                        sm_mark = markResult, sm_clean = cleanResult, sm_success = True\<rparr>;
             tr2 = tr1 @ [SaveLog summary]
         in case o_saveLog env of
              Inl e \<Rightarrow> (uncaught e, tr2)
            | Inr logFilename \<Rightarrow>
                (case markResult of
                   None \<Rightarrow> (uncaught TYPE_ERROR_totalUpdated, tr2)
                 | Some m \<Rightarrow>
                     (\<lparr>r_success = True, r_step = None, r_error = None, r_summary = Some summary,
                       r_logFilename = Some logFilename\<rparr>, tr2))))"

text \<open>
  Step 4 of 06\_orchestrate.js (lines 134--185). \<open>const markResult\<close> is declared inside the
  \<open>try\<close> block; the \<open>let markResult\<close> of line 82, which steps 5 and 6 read, is never
  assigned.
\<close>

definition markStep ::
  "orch_env \<Rightarrow> download_result \<Rightarrow> sync_result \<Rightarrow> test_result \<Rightarrow> stage_event list \<Rightarrow>
   orch_result \<times> stage_event list" where
  "markStep env downloadResult syncResult testResult tr =
     (let markResultInner = o_mark env; tr1 = tr @ [CalledMark] in
      if \<not> m_success markResultInner \<and> m_error markResultInner = Some ''No sync log files found''
         \<and> d_totalRecords downloadResult = 0
      then
        (let summary = \<lparr>sm_workflowId = Some (o_workflowId env), sm_timestamp = Some (o_endTime env),
                        sm_startTime = None, sm_endTime = None, sm_duration = None,
                        sm_download = downloadResult, sm_sync = syncResult, sm_test = testResult,
                        sm_mark = Some (markResult0\<lparr>m_success := True, m_totalUpdated := Some 0,
                                                    m_message := Some ''No new data to sync''\<rparr>),
                        sm_clean = \<lparr>c_success = True, c_error = None, c_totalFiles = None,
                                     c_filesDeleted = Some 0, c_filesKept = None\<rparr>,
                        sm_success = True\<rparr>;
             tr2 = tr1 @ [SaveLog summary]
         in case o_saveLog env of
              Inl e \<Rightarrow> (failedAt ''mark'' (Some e), tr2)
            | Inr logFilename \<Rightarrow>
                (\<lparr>r_success = True, r_step = None, r_error = None, r_summary = Some summary,
                  r_logFilename = Some logFilename\<rparr>, tr2))
      else if \<not> m_success markResultInner then (failedAt ''mark'' (m_error markResultInner), tr1)
      else cleanAndLog env downloadResult syncResult testResult None tr1)"

text \<open>
  The critical alert after the loop (lines 111--125) sets \<open>criticalMissing\<close> on the last test
  result. Nothing reads that object afterwards: the summary holds the first test result.
\<close>

definition criticalAlert :: "test_result \<Rightarrow> test_result" where
  "criticalAlert currentTestResult =
     (if \<not> t_success currentTestResult then
        (case t_missing currentTestResult of
           Some missing \<Rightarrow>
             if missing > 0 then currentTestResult\<lparr>t_criticalMissing := Some missing\<rparr>
             else currentTestResult
         | None \<Rightarrow> currentTestResult)
      else currentTestResult)"

definition orchestrate :: "orch_env \<Rightarrow> orch_result \<times> stage_event list" where
  "orchestrate env =
     (case o_download env of
        Inl e \<Rightarrow> (failedAt ''download'' (Some e), [CalledDownload])
      | Inr downloadResult \<Rightarrow>
          if \<not> d_success downloadResult
          then (failedAt ''download'' (Some ''Download failed''), [CalledDownload])
          else
            (let (syncResult, tr1) = callSync env [CalledDownload] in
             if \<not> s_success syncResult then (failedAt ''sync'' (s_error syncResult), tr1)
             else
               (let (testResult, tr2) = callTest env tr1 in
                case resyncLoop env testResult 0 tr2 of
                  (Inl fatal, retryCount, tr3) \<Rightarrow> (fatal, tr3)
                | (Inr currentTestResult, retryCount, tr3) \<Rightarrow>
                    (let alerted = criticalAlert currentTestResult
                     in markStep env downloadResult syncResult testResult tr3))))"

text \<open>
  The variant in src/unnamed/part\_000: the same steps 1 to 3, then \<open>const markResult\<close> at
  function level, with no special case for a run without new data.
\<close>

definition orchestrate_variant :: "orch_env \<Rightarrow> orch_result \<times> stage_event list" where
  "orchestrate_variant env =
     (case o_download env of
        Inl e \<Rightarrow> (failedAt ''download'' (Some e), [CalledDownload])
      | Inr downloadResult \<Rightarrow>
          if \<not> d_success downloadResult
          then (failedAt ''download'' (Some ''Download failed''), [CalledDownload])
          else
            (let (syncResult, tr1) = callSync env [CalledDownload] in
             if \<not> s_success syncResult then (failedAt ''sync'' (s_error syncResult), tr1)
             else
               (let (testResult, tr2) = callTest env tr1 in
                case resyncLoop env testResult 0 tr2 of
                  (Inl fatal, retryCount, tr3) \<Rightarrow> (fatal, tr3)
                | (Inr currentTestResult, retryCount, tr3) \<Rightarrow>
                    (let markResult = o_mark env; tr4 = tr3 @ [CalledMark] in
                     if \<not> m_success markResult then (failedAt ''mark'' (m_error markResult), tr4)
                     else cleanAndLog env downloadResult syncResult testResult (Some markResult) tr4))))"

text \<open>
  The entry point of both files: \<open>process.exit(0)\<close> when the result reports success,
  \<open>process.exit(1)\<close> otherwise.
\<close>

definition exitCode :: "orch_result \<Rightarrow> nat" where
  "exitCode result = (if r_success result then 0 else 1)"

section \<open>Predicates used in the statements\<close>

text \<open>
  The events \<open>dynamicMicroBatch\<close> adds to a trace, and the contract of the bulk API that a
  response reports on no more items than the request has records (the request body has two
  entries per record).
\<close>

definition indexEvent :: "event \<Rightarrow> bool" where
  "indexEvent ev = (case ev of BulkRequest body \<Rightarrow> True | Sleep ms \<Rightarrow> True | _ \<Rightarrow> False)"

definition honestIndex :: "env \<Rightarrow> bool" where
  "honestIndex env \<longleftrightarrow>
     (\<forall>tr body response. os_bulk env tr body = Inr response \<longrightarrow>
        2 * length (successItems response) \<le> length body)"

text \<open>The events that write an object.\<close>

definition isPut :: "event \<Rightarrow> bool" where
  "isPut ev = (case ev of PutObject key body \<Rightarrow> True | _ \<Rightarrow> False)"

text \<open>The passing result of the count comparison: \<open>{ success: true, totalRecords, missing: 0 }\<close>.\<close>

definition passed :: "int \<Rightarrow> test_result" where
  "passed actual = testResult0\<lparr>t_success := True, t_totalRecords := Some actual, t_missing := Some 0\<rparr>"


text \<open>
  What the retry loop guarantees on exit, started with \<open>retryCount\<close> and trace \<open>tr\<close>: the
  number of resyncs is the growth of \<open>retryCount\<close>, which ends at most at \<open>MAX_RETRIES\<close>;
  there are no more tests than resyncs; the loop returns the failure at step \<open>resync\<close> only
  with \<open>retryCount = MAX_RETRIES\<close> and a failed last resync, and otherwise ends with a passed
  test or with \<open>retryCount = MAX_RETRIES\<close>.
\<close>

definition loopExit :: "orch_env \<Rightarrow> nat \<Rightarrow> stage_event list \<Rightarrow> (orch_result + test_result) \<times> nat \<times> stage_event list \<Rightarrow> bool" where
  "loopExit env retryCount tr out =
     (case out of (outcome, retryCount', tr') \<Rightarrow>
        retryCount \<le> retryCount' \<and> retryCount' \<le> MAX_RETRIES
      \<and> count_list tr' CalledSync = count_list tr CalledSync + (retryCount' - retryCount)
      \<and> count_list tr' CalledTest \<le> count_list tr CalledTest + (retryCount' - retryCount)
      \<and> (case outcome of
            Inl fatal \<Rightarrow>
              fatal = failedAt ''resync'' (Some ''Re-sync failed after max retries'')
            \<and> retryCount' = MAX_RETRIES
            \<and> \<not> s_success (o_sync env (count_list tr' CalledSync - 1))
          | Inr cur \<Rightarrow> t_success cur \<or> retryCount' = MAX_RETRIES))"


text \<open>
  The summary of a run without new data (lines 145--154 of 06\_orchestrate.js), and the
  summary of steps 5 and 6 for a given value of the variable \<open>markResult\<close>.
\<close>

definition noDataSummary :: "orch_env \<Rightarrow> download_result \<Rightarrow> summary" where
  "noDataSummary env downloadResult =
     \<lparr>sm_workflowId = Some (o_workflowId env), sm_timestamp = Some (o_endTime env),
      sm_startTime = None, sm_endTime = None, sm_duration = None,
      sm_download = downloadResult, sm_sync = o_sync env 0, sm_test = o_test env 0,
      sm_mark = Some (markResult0\<lparr>m_success := True, m_totalUpdated := Some 0,
                                  m_message := Some ''No new data to sync''\<rparr>),
      sm_clean = \<lparr>c_success = True, c_error = None, c_totalFiles = None,
                   c_filesDeleted = Some 0, c_filesKept = None\<rparr>,
      sm_success = True\<rparr>"

definition nominalSummary :: "orch_env \<Rightarrow> download_result \<Rightarrow> mark_result option \<Rightarrow> summary" where
  "nominalSummary env downloadResult markResult =
     \<lparr>sm_workflowId = None, sm_timestamp = None,
      sm_startTime = Some (o_startTime env), sm_endTime = Some (o_endTime env),
      sm_duration = Some (o_endTime env - o_startTime env),
      sm_download = downloadResult, sm_sync = o_sync env 0, sm_test = o_test env 0,
      sm_mark = markResult, sm_clean = o_clean env, sm_success = True\<rparr>"

section \<open>Sample inputs\<close>

text \<open>
  The record \<open>{ id: i, ad_name: 'aa...a' }\<close> with \<open>pad\<close> letters, as it is staged, and three
  blobs: one record above the ceiling on its own, twenty-six small records of one size, and
  three records of about a megabyte each.
\<close>

definition recordOf :: "nat \<Rightarrow> nat \<Rightarrow> rec" where
  "recordOf i pad =
     \<lparr>rec_id = i,
      rec_json = ''{'' @ [dq] @ ''id'' @ [dq] @ '':'' @ toString i @ '','' @ [dq] @ ''ad_name'' @ [dq]
                 @ '':'' @ [dq] @ replicate pad (CHR ''a'') @ [dq] @ ''}''\<rparr>"

definition oversizedBlob :: "rec list" where
  "oversizedBlob = [recordOf 1 2097152]"

definition uniformBlob :: "rec list" where
  "uniformBlob = map (\<lambda>i. recordOf i 100) [10..<36]"

definition megabyteBlob :: "rec list" where
  "megabyteBlob = [recordOf 1 1000000, recordOf 2 1000000, recordOf 3 1000000]"

text \<open>
  An index that throws on the first bulk request of a trace holding none, and afterwards
  answers with one created item and one rejected item.
\<close>

definition item201 :: bulk_item where
  "item201 = \<lparr>item_index = Some \<lparr>status = 201\<rparr>, item_create = None, item_update = None\<rparr>"

definition item429 :: bulk_item where
  "item429 = \<lparr>item_index = Some \<lparr>status = 429\<rparr>, item_create = None, item_update = None\<rparr>"

definition flakyBulk :: "event list \<Rightarrow> string list \<Rightarrow> error + bulk_response" where
  "flakyBulk tr body =
     (if tr = [] then Inl ''socket hang up''
      else Inr \<lparr>errors = True, items = Some [item201, item429]\<rparr>)"

text \<open>
  A store holding the two staged blobs \<open>unsynced_0001.jsonl\<close> (two small records) and
  \<open>unsynced_0002.jsonl\<close> (not parseable), with commands that do not throw unless said so.
\<close>

definition twoRecords :: "rec list" where
  "twoRecords = [recordOf 1 10, recordOf 2 10]"

definition stagedGet :: "event list \<Rightarrow> string \<Rightarrow> error + rec list" where
  "stagedGet tr key =
     (if key = ''unsynced_0001.jsonl'' then Inr twoRecords
      else Inl ''Unexpected end of JSON input'')"

definition sampleEnv :: env where
  "sampleEnv =
     \<lparr>os_bulk = (\<lambda>tr body. Inr \<lparr>errors = False, items = None\<rparr>),
      s3_list = (\<lambda>tr prefix. Inr [''unsynced_0001.jsonl'', ''unsynced_0002.jsonl'']),
      s3_get = stagedGet,
      s3_delete = (\<lambda>tr key. Inr ()),
      s3_put = (\<lambda>tr key. Inr ()),
      clock = (\<lambda>tr. ''2026-01-01T00:00:00.000Z''),
      localeSort = (\<lambda>keys. keys)\<rparr>"

text \<open>
  A blob of ten records; an index that reports on the records of a request in order, the
  first seven created and the next three rejected; and an index that reports no errors.
\<close>

definition tenRecords :: "rec list" where
  "tenRecords = map (\<lambda>i. recordOf i 10) [1..<11]"

definition sevenCreated :: "bulk_item list" where
  "sevenCreated = replicate 7 item201 @ replicate 3 item429"

definition sevenOfTenEnv :: env where
  "sevenOfTenEnv =
     sampleEnv
       \<lparr>os_bulk := (\<lambda>tr body. Inr \<lparr>errors = True,
                      items = Some (take (length body div 2) sevenCreated)\<rparr>),
        s3_get := (\<lambda>tr key. Inr tenRecords)\<rparr>"

definition allOfTenEnv :: env where
  "allOfTenEnv = sampleEnv \<lparr>s3_get := (\<lambda>tr key. Inr tenRecords)\<rparr>"

text \<open>A store that refuses to delete \<open>unsynced_0001.jsonl\<close> and deletes any other key.\<close>

definition lockedFirstEnv :: env where
  "lockedFirstEnv =
     sampleEnv
       \<lparr>s3_delete := (\<lambda>tr key. if key = ''unsynced_0001.jsonl'' then Inl ''AccessDenied'' else Inr ())\<rparr>"

text \<open>A store that deletes \<open>unsynced_0001.jsonl\<close> and refuses any other key.\<close>

definition lockedSecondEnv :: env where
  "lockedSecondEnv =
     sampleEnv
       \<lparr>s3_list := (\<lambda>tr prefix. Inr [''unsynced_0001.jsonl'', ''log/sync_log_1.json'',
                                      ''unsynced_0002.jsonl'', ''unsynced_0003.jsonl'']),
        s3_delete := (\<lambda>tr key. if key = ''unsynced_0001.jsonl'' then Inr () else Inl ''AccessDenied'')\<rparr>"

definition flakyEnv :: env where
  "flakyEnv = sampleEnv \<lparr>os_bulk := flakyBulk\<rparr>"

text \<open>A store none of whose blobs can be read.\<close>

definition unreadableEnv :: env where
  "unreadableEnv = sampleEnv \<lparr>s3_get := (\<lambda>tr key. Inl ''NoSuchKey'')\<rparr>"

text \<open>
  A destination of \<open>actual\<close> records with no duplicate identifier, and a log folder with two
  download summaries: the older one expects \<open>expected + 7\<close> records, the latest one
  \<open>expected\<close>.
\<close>

definition countsTestEnv :: "int \<Rightarrow> int \<Rightarrow> test_env" where
  "countsTestEnv expected actual =
     \<lparr>te_count = Inr actual, te_sample = Inr (), te_buckets = Inr [1, 1, 1],
      te_listSummaries = Inr [(''log/download_summary_a.json'', 10), (''log/download_summary_b.json'', 20)],
      te_readSummary = (\<lambda>key. if key = ''log/download_summary_b.json'' then Inr expected
                               else Inr (expected + 7))\<rparr>"

text \<open>
  Stage results of a run in which every stage reports success, and of a run with nothing to
  download whose mark step finds no sync log; \<open>noLogsMarkEnv\<close> is a store without sync logs.
\<close>

definition okDownload :: download_result where
  "okDownload = \<lparr>d_success = True, d_totalRecords = 2, d_fileCount = 1, d_files = [''unsynced_0001.jsonl'']\<rparr>"

definition okSync :: sync_result where
  "okSync = \<lparr>s_success = True, s_error = None, s_syncedFiles = 1, s_totalFiles = Some 1,
             s_totalRecords = 2, s_syncedIdsCount = Some 2\<rparr>"

definition failedSync :: sync_result where
  "failedSync = \<lparr>s_success = False, s_error = Some ''ECONNRESET'', s_syncedFiles = 0, s_totalFiles = Some 0,
                 s_totalRecords = 0, s_syncedIdsCount = None\<rparr>"

definition okMark :: mark_result where
  "okMark = markResult0\<lparr>m_success := True, m_totalUpdated := Some 2, m_totalIds := Some 2,
                        m_logFiles := Some [''log/sync_log_ids_m1abc_2026.json'']\<rparr>"

definition okClean :: clean_result where
  "okClean = \<lparr>c_success = True, c_error = None, c_totalFiles = Some 3, c_filesDeleted = Some 0,
              c_filesKept = Some 3\<rparr>"

definition allOkRun :: orch_env where
  "allOkRun =
     \<lparr>o_workflowId = ''m1abc'', o_startTime = 1000, o_endTime = 61000,
      o_download = Inr okDownload, o_sync = (\<lambda>n. okSync), o_test = (\<lambda>n. compareCounts 2 2),
      o_mark = okMark, o_clean = okClean, o_saveLog = Inr ''log/sync_log_2026.json''\<rparr>"

definition noLogsMarkEnv :: mark_env where
  "noLogsMarkEnv = \<lparr>me_list = (\<lambda>prefix. Inr []), me_readLog = (\<lambda>key. Inr []), me_update = (\<lambda>ids. Updated)\<rparr>"

definition noDataRun :: orch_env where
  "noDataRun =
     allOkRun
       \<lparr>o_download := Inr \<lparr>d_success = True, d_totalRecords = 0, d_fileCount = 0, d_files = []\<rparr>,
        o_sync := (\<lambda>n. \<lparr>s_success = True, s_error = None, s_syncedFiles = 0, s_totalFiles = None,
                         s_totalRecords = 0, s_syncedIdsCount = None\<rparr>),
        o_test := (\<lambda>n. compareCounts 0 120),
        o_mark := markAsSynced noLogsMarkEnv (Some ''m1abc'')\<rparr>"

definition noDataSaveFailsRun :: orch_env where
  "noDataSaveFailsRun = noDataRun \<lparr>o_saveLog := Inl ''ServiceUnavailable''\<rparr>"

text \<open>
  A run whose first test fails and whose test after one resync passes; a run whose tests all
  fail; a run whose tests and resyncs all fail.
\<close>

definition oneResyncRun :: orch_env where
  "oneResyncRun = allOkRun \<lparr>o_test := (\<lambda>n. if n = 0 then compareCounts 2 1 else compareCounts 2 2)\<rparr>"

definition testsFailRun :: orch_env where
  "testsFailRun = allOkRun \<lparr>o_test := (\<lambda>n. compareCounts 2 1)\<rparr>"

definition resyncsFailRun :: orch_env where
  "resyncsFailRun =
     allOkRun \<lparr>o_test := (\<lambda>n. compareCounts 2 1), o_sync := (\<lambda>n. if n = 0 then okSync else failedSync)\<rparr>"

section \<open>Properties of the probe and of the payload size\<close>

lemma length_joinComma:
  "length (joinComma xs) = sum_list (map length xs) + (length xs - 1)"
  by (induction xs rule: joinComma.induct) auto

lemma sum_length_bulkBody:
  "sum_list (map length (bulkBody batch)) = (\<Sum>r\<leftarrow>batch. length (actionJson r) + length (rec_json r))"
  by (induction batch) (simp_all add: bulkBody_def)

lemma length_bulkBody: "length (bulkBody batch) = 2 * length batch"
  by (induction batch) (simp_all add: bulkBody_def)

lemma sum_recordBytes:
  "(\<Sum>r\<leftarrow>batch. recordBytes r) = (\<Sum>r\<leftarrow>batch. length (actionJson r) + length (rec_json r)) + 2 * length batch"
  by (induction batch) (simp_all add: recordBytes_def)

lemma payloadSize_bulkBody:
  "payloadSize (bulkBody batch) = (if batch = [] then 2 else 1 + (\<Sum>r\<leftarrow>batch. recordBytes r))"
proof (cases "batch = []")
  case True
  then show ?thesis by (simp add: payloadSize_def stringifyArray_def bulkBody_def)
next
  case False
  then have "0 < length batch" by simp
  then have "payloadSize (bulkBody batch) = 1 + ((\<Sum>r\<leftarrow>batch. length (actionJson r) + length (rec_json r)) + 2 * length batch)"
    by (simp add: payloadSize_def stringifyArray_def length_joinComma sum_length_bulkBody length_bulkBody)
  then show ?thesis using False by (simp add: sum_recordBytes)
qed

lemma recordBytes_pos: "ys \<noteq> [] \<Longrightarrow> 1 \<le> (\<Sum>r\<leftarrow>ys. recordBytes r)"
  by (cases ys) (simp_all add: recordBytes_def)

lemma payloadSize_append_mono:
  "payloadSize (bulkBody xs) \<le> payloadSize (bulkBody (xs @ ys))"
proof (cases "xs = []")
  case True
  then show ?thesis using recordBytes_pos [of ys] by (simp add: payloadSize_bulkBody)
next
  case False
  then show ?thesis by (simp add: payloadSize_bulkBody)
qed

lemma payloadSize_take_mono:
  assumes "k \<le> j"
  shows "payloadSize (bulkBody (take k records)) \<le> payloadSize (bulkBody (take j records))"
proof -
  have "take j records = take k records @ drop k (take j records)"
    using assms by (metis append_take_drop_id min.absorb1 take_take)
  then show ?thesis
    using payloadSize_append_mono [of "take k records" "drop k (take j records)"] by simp
qed

lemma probeFits_antimono: "k \<le> j \<Longrightarrow> probeFits records j \<Longrightarrow> probeFits records k"
  unfolding probeFits_def fitsPayload_def using payloadSize_take_mono [of k j records] by linarith

lemma probeLoop_stop:
  "\<not> (testSize \<le> maxTestSize \<and> probeFits records testSize) \<Longrightarrow>
     probeLoop records maxTestSize testSize finalBatchSize = finalBatchSize"
  by auto

lemma probeLoop_step:
  "testSize \<le> maxTestSize \<Longrightarrow> probeFits records testSize \<Longrightarrow>
     probeLoop records maxTestSize testSize finalBatchSize = probeLoop records maxTestSize (testSize + 1) testSize"
  by simp

declare probeLoop.simps [simp del]

lemma probeLoop_range:
  "testSize \<le> maxTestSize \<Longrightarrow> probeFits records testSize \<Longrightarrow>
     testSize \<le> probeLoop records maxTestSize testSize finalBatchSize
     \<and> probeLoop records maxTestSize testSize finalBatchSize \<le> maxTestSize"
proof (induction records maxTestSize testSize finalBatchSize rule: probeLoop.induct)
  case (1 records maxTestSize testSize finalBatchSize)
  have e1: "probeLoop records maxTestSize testSize finalBatchSize
              = probeLoop records maxTestSize (testSize + 1) testSize"
    using "1.prems" by (rule probeLoop_step)
  show ?case
  proof (cases "testSize + 1 \<le> maxTestSize \<and> probeFits records (testSize + 1)")
    case True
    then have "testSize + 1 \<le> probeLoop records maxTestSize (testSize + 1) testSize
       \<and> probeLoop records maxTestSize (testSize + 1) testSize \<le> maxTestSize"
      using "1.IH" "1.prems" by blast
    then show ?thesis unfolding e1 by simp
  next
    case False
    have e2: "probeLoop records maxTestSize (testSize + 1) testSize = testSize"
      by (rule probeLoop_stop [OF False])
    show ?thesis unfolding e1 e2 using "1.prems" by simp
  qed
qed

lemma probeLoop_fits:
  "testSize \<le> maxTestSize \<Longrightarrow> probeFits records testSize \<Longrightarrow>
     probeFits records (probeLoop records maxTestSize testSize finalBatchSize)"
proof (induction records maxTestSize testSize finalBatchSize rule: probeLoop.induct)
  case (1 records maxTestSize testSize finalBatchSize)
  have e1: "probeLoop records maxTestSize testSize finalBatchSize
              = probeLoop records maxTestSize (testSize + 1) testSize"
    using "1.prems" by (rule probeLoop_step)
  show ?case
  proof (cases "testSize + 1 \<le> maxTestSize \<and> probeFits records (testSize + 1)")
    case True
    then show ?thesis unfolding e1 using "1.IH" "1.prems" by blast
  next
    case False
    have e2: "probeLoop records maxTestSize (testSize + 1) testSize = testSize"
      by (rule probeLoop_stop [OF False])
    show ?thesis unfolding e1 e2 using "1.prems" by simp
  qed
qed

lemma probeLoop_next_exceeds:
  "testSize \<le> maxTestSize \<Longrightarrow> probeFits records testSize \<Longrightarrow>
     probeLoop records maxTestSize testSize finalBatchSize < maxTestSize \<Longrightarrow>
     \<not> probeFits records (probeLoop records maxTestSize testSize finalBatchSize + 1)"
proof (induction records maxTestSize testSize finalBatchSize rule: probeLoop.induct)
  case (1 records maxTestSize testSize finalBatchSize)
  have e1: "probeLoop records maxTestSize testSize finalBatchSize
              = probeLoop records maxTestSize (testSize + 1) testSize"
    using "1.prems"(1,2) by (rule probeLoop_step)
  show ?case
  proof (cases "testSize + 1 \<le> maxTestSize \<and> probeFits records (testSize + 1)")
    case True
    then show ?thesis using "1.IH" "1.prems" unfolding e1 by blast
  next
    case False
    have e2: "probeLoop records maxTestSize (testSize + 1) testSize = testSize"
      by (rule probeLoop_stop [OF False])
    have "testSize < maxTestSize" using "1.prems"(3) unfolding e1 e2 .
    then have "\<not> probeFits records (testSize + 1)" using False by simp
    then show ?thesis unfolding e1 e2 .
  qed
qed

lemma probeBatchSize_ge_1: "1 \<le> probeBatchSize records"
proof (cases "1 \<le> min INITIAL_BATCH_SIZE (length records) \<and> probeFits records 1")
  case True
  then show ?thesis unfolding probeBatchSize_def using probeLoop_range by blast
next
  case False
  then show ?thesis unfolding probeBatchSize_def by (simp add: probeLoop_stop)
qed

lemma probeBatchSize_oversized:
  "\<not> probeFits records 1 \<Longrightarrow> probeBatchSize records = 1"
  unfolding probeBatchSize_def by (simp add: probeLoop_stop)

lemma probeLoop_eq:
  assumes "testSize \<le> B" "B \<le> maxTestSize" "probeFits records B"
    and "B < maxTestSize \<longrightarrow> \<not> probeFits records (B + 1)"
  shows "probeLoop records maxTestSize testSize finalBatchSize = B"
proof -
  let ?R = "probeLoop records maxTestSize testSize finalBatchSize"
  have le: "testSize \<le> maxTestSize" using assms(1,2) by simp
  have f: "probeFits records testSize" using assms(1,3) probeFits_antimono by blast
  have r: "testSize \<le> ?R \<and> ?R \<le> maxTestSize" using le f by (rule probeLoop_range)
  have fr: "probeFits records ?R" using le f by (rule probeLoop_fits)
  have nr: "?R < maxTestSize \<Longrightarrow> \<not> probeFits records (?R + 1)"
    using probeLoop_next_exceeds [OF le f] by blast
  have "\<not> ?R < B"
  proof
    assume lt: "?R < B"
    then have "probeFits records (?R + 1)"
      using assms(3) probeFits_antimono [of "?R + 1" B] by simp
    moreover have "?R < maxTestSize" using lt assms(2) by simp
    ultimately show False using nr by blast
  qed
  moreover have "\<not> B < ?R"
  proof
    assume lt: "B < ?R"
    then have "probeFits records (B + 1)"
      using fr probeFits_antimono [of "B + 1" ?R] by simp
    moreover have "B < maxTestSize" using lt r by simp
    ultimately show False using assms(4) by blast
  qed
  ultimately show ?thesis by simp
qed

lemma length_actionJson: "length (actionJson r) = 62 + length (toString (rec_id r))"
  by (simp add: actionJson_def INDEX_NAME_def)

lemma recordBytes_recordOf:
  "recordBytes (recordOf i pad) = 2 * length (toString i) + pad + 84"
  by (simp add: recordBytes_def length_actionJson recordOf_def)

lemma toString_digit: "n < 10 \<Longrightarrow> toString n = [digit n]"
  by (simp add: toString.simps)

lemma length_toString_2: "10 \<le> n \<Longrightarrow> n < 100 \<Longrightarrow> length (toString n) = 2"
  by (subst toString.simps) (simp add: toString_digit)

lemma oversized_not_fits: "\<not> probeFits oversizedBlob 1"
  by (simp add: probeFits_def oversizedBlob_def payloadSize_bulkBody fitsPayload_def MAX_PAYLOAD_MB_def recordBytes_recordOf)

lemma megabyte_vals:
  "probeFits megabyteBlob 1" "probeFits megabyteBlob 2" "\<not> probeFits megabyteBlob 3"
  by (simp_all add: probeFits_def megabyteBlob_def payloadSize_bulkBody fitsPayload_def MAX_PAYLOAD_MB_def
       recordBytes_recordOf toString_digit)

lemma megabyte_B: "probeBatchSize megabyteBlob = 2"
proof -
  have l: "min INITIAL_BATCH_SIZE (length megabyteBlob) = 3"
    by (simp add: megabyteBlob_def INITIAL_BATCH_SIZE_def)
  show ?thesis unfolding probeBatchSize_def l
    by (rule probeLoop_eq) (use megabyte_vals in simp_all)
qed

lemma uniform_sum: "(\<Sum>r\<leftarrow>map (\<lambda>i. recordOf i 100) [a..<b]. recordBytes r) \<le> 188 * (b - a)"
  if "10 \<le> a" "b \<le> 100"
  using that
proof (induction "b - a" arbitrary: a b)
  case 0
  then show ?case by simp
next
  case (Suc n)
  then have "a < b" by simp
  then have e: "[a..<b] = a # [Suc a..<b]" by (simp add: upt_rec)
  have "(\<Sum>r\<leftarrow>map (\<lambda>i. recordOf i 100) [Suc a..<b]. recordBytes r) \<le> 188 * (b - Suc a)"
    using Suc by (intro Suc.hyps(1)) simp_all
  moreover have "recordBytes (recordOf a 100) = 188"
    using Suc.prems \<open>a < b\<close> by (simp add: recordBytes_recordOf length_toString_2)
  ultimately show ?case unfolding e using \<open>a < b\<close> by simp
qed

lemma uniform_fits: "probeFits uniformBlob 26"
proof -
  have "length uniformBlob = 26" by (simp add: uniformBlob_def)
  then have t: "take 26 uniformBlob = uniformBlob" by simp
  have "(\<Sum>r\<leftarrow>uniformBlob. recordBytes r) \<le> 188 * (36 - 10)"
    unfolding uniformBlob_def by (rule uniform_sum) simp_all
  then show ?thesis
    unfolding probeFits_def t payloadSize_bulkBody fitsPayload_def MAX_PAYLOAD_MB_def by simp
qed

lemma uniform_B: "probeBatchSize uniformBlob = 25"
proof -
  have l: "min INITIAL_BATCH_SIZE (length uniformBlob) = 25"
    by (simp add: uniformBlob_def INITIAL_BATCH_SIZE_def)
  have "probeFits uniformBlob 25" using uniform_fits probeFits_antimono [of 25 26 uniformBlob] by simp
  then show ?thesis unfolding probeBatchSize_def l
    by (intro probeLoop_eq) simp_all
qed

section \<open>Properties of the batch loop\<close>

lemma batchLoop_unfold:
  "0 < finalBatchSize \<Longrightarrow>
   batchLoop env records finalBatchSize i st =
     (if i < length records
      then batchLoop env records finalBatchSize (i + finalBatchSize)
             (bulkWindow env (take finalBatchSize (drop i records)) st)
      else st)"
  by (cases finalBatchSize) simp_all

lemma bulkWindow_cases:
  obtains (first) response where "os_bulk env tr (bulkBody batch) = Inr response"
      "bulkWindow env batch (c, tr) = (c + confirmed response batch, tr @ [BulkRequest (bulkBody batch)])"
  | (retry) e response where "os_bulk env tr (bulkBody batch) = Inl e"
      "os_bulk env (tr @ [BulkRequest (bulkBody batch), Sleep 2000]) (bulkBody batch) = Inr response"
      "bulkWindow env batch (c, tr) =
         (c + confirmed response batch, tr @ [BulkRequest (bulkBody batch), Sleep 2000, BulkRequest (bulkBody batch)])"
  | (gave_up) e e' where "os_bulk env tr (bulkBody batch) = Inl e"
      "os_bulk env (tr @ [BulkRequest (bulkBody batch), Sleep 2000]) (bulkBody batch) = Inl e'"
      "bulkWindow env batch (c, tr) =
         (c, tr @ [BulkRequest (bulkBody batch), Sleep 2000, BulkRequest (bulkBody batch)])"
proof (cases "os_bulk env tr (bulkBody batch)")
  case (Inr response)
  then show ?thesis using first by (simp add: bulkWindow_def)
next
  case (Inl e)
  show ?thesis
  proof (cases "os_bulk env (tr @ [BulkRequest (bulkBody batch), Sleep 2000]) (bulkBody batch)")
    case (Inr response)
    then show ?thesis using Inl retry by (simp add: bulkWindow_def Let_def)
  next
    case Inl2: (Inl e')
    then show ?thesis using Inl gave_up by (simp add: bulkWindow_def Let_def)
  qed
qed

lemma bulkWindow_trace:
  "\<exists>new. snd (bulkWindow env batch (c, tr)) = tr @ BulkRequest (bulkBody batch) # new \<and> (\<forall>ev \<in> set new. indexEvent ev)"
  by (cases rule: bulkWindow_cases [of env tr batch c]) (simp_all add: indexEvent_def)

lemma confirmed_le:
  assumes "honestIndex env" "os_bulk env tr (bulkBody batch) = Inr response"
  shows "confirmed response batch \<le> length batch"
proof -
  have "2 * length (successItems response) \<le> length (bulkBody batch)"
    using assms unfolding honestIndex_def by blast
  then show ?thesis by (simp add: confirmed_def length_bulkBody)
qed

lemma bulkWindow_count_le:
  assumes "honestIndex env"
  shows "fst (bulkWindow env batch (c, tr)) \<le> c + length batch"
  by (cases rule: bulkWindow_cases [of env tr batch c]) (use confirmed_le [OF assms] in auto)

lemma bulkWindow_count_ge: "c \<le> fst (bulkWindow env batch (c, tr))"
  by (cases rule: bulkWindow_cases [of env tr batch c]) auto

lemma batchLoop_trace:
  "0 < finalBatchSize \<Longrightarrow>
   \<exists>new. snd (batchLoop env records finalBatchSize i st) = snd st @ new \<and> (\<forall>ev \<in> set new. indexEvent ev)"
proof (induction env records finalBatchSize i st rule: batchLoop.induct)
  case (1 env records n i st)
  show ?case
  proof (cases "i < length records")
    case False
    then show ?thesis by simp
  next
    case True
    let ?batch = "take (Suc n) (drop i records)"
    let ?st' = "bulkWindow env ?batch st"
    obtain new where n: "snd (batchLoop env records (Suc n) (i + Suc n) ?st') = snd ?st' @ new"
        "\<forall>ev \<in> set new. indexEvent ev"
      using "1.IH" [OF True] by blast
    obtain new1 where n1: "snd ?st' = snd st @ BulkRequest (bulkBody ?batch) # new1"
        "\<forall>ev \<in> set new1. indexEvent ev"
      using bulkWindow_trace [of env ?batch "fst st" "snd st"] by auto
    have "batchLoop env records (Suc n) i st = batchLoop env records (Suc n) (i + Suc n) ?st'"
      using True by simp
    then have "snd (batchLoop env records (Suc n) i st) = snd st @ (BulkRequest (bulkBody ?batch) # new1 @ new)"
      using n(1) n1(1) by simp
    moreover have "\<forall>ev \<in> set (BulkRequest (bulkBody ?batch) # new1 @ new). indexEvent ev"
      using n(2) n1(2) by (auto simp: indexEvent_def)
    ultimately show ?thesis by blast
  qed
next
  case (2 env records i st)
  then show ?case by simp
qed

lemma batchLoop_count_le:
  "0 < finalBatchSize \<Longrightarrow> honestIndex env \<Longrightarrow>
   fst (batchLoop env records finalBatchSize i st) \<le> fst st + (length records - i)"
proof (induction env records finalBatchSize i st rule: batchLoop.induct)
  case (1 env records n i st)
  show ?case
  proof (cases "i < length records")
    case False
    then show ?thesis by simp
  next
    case True
    let ?batch = "take (Suc n) (drop i records)"
    let ?st' = "bulkWindow env ?batch st"
    have ih: "fst (batchLoop env records (Suc n) (i + Suc n) ?st') \<le> fst ?st' + (length records - (i + Suc n))"
      using "1.IH" [OF True] "1.prems" by blast
    have w: "fst ?st' \<le> fst st + length ?batch"
      using bulkWindow_count_le [OF "1.prems"(2), of ?batch "fst st" "snd st"] by simp
    have "length ?batch = min (Suc n) (length records - i)" by simp
    then have l: "length ?batch + (length records - (i + Suc n)) = length records - i"
      using True by linarith
    have "batchLoop env records (Suc n) i st = batchLoop env records (Suc n) (i + Suc n) ?st'"
      using True by simp
    then show ?thesis using ih w l by simp
  qed
next
  case (2 env records i st)
  then show ?case by simp
qed

lemma dynamicMicroBatch_count_le:
  "honestIndex env \<Longrightarrow> fst (dynamicMicroBatch env records tr) \<le> length records"
  unfolding dynamicMicroBatch_def
  using batchLoop_count_le [of "probeBatchSize records" env records 0 "(0, tr)"] probeBatchSize_ge_1 [of records]
  by simp

lemma dynamicMicroBatch_trace:
  "\<exists>new. snd (dynamicMicroBatch env records tr) = tr @ new \<and> (\<forall>ev \<in> set new. indexEvent ev)"
  unfolding dynamicMicroBatch_def
  using batchLoop_trace [of "probeBatchSize records" env records 0 "(0, tr)"] probeBatchSize_ge_1 [of records]
  by simp

lemma dynamicMicroBatch_first_request:
  assumes "records \<noteq> []"
  shows "\<exists>rest. snd (dynamicMicroBatch env records tr)
            = tr @ BulkRequest (bulkBody (take (probeBatchSize records) records)) # rest"
proof -
  let ?B = "probeBatchSize records"
  let ?st' = "bulkWindow env (take ?B (drop 0 records)) (0, tr)"
  have pos: "0 < ?B" using probeBatchSize_ge_1 [of records] by simp
  have "batchLoop env records ?B 0 (0, tr) = batchLoop env records ?B (0 + ?B) ?st'"
    using assms pos by (subst batchLoop_unfold) simp_all
  moreover obtain new where "snd (batchLoop env records ?B (0 + ?B) ?st') = snd ?st' @ new"
    using batchLoop_trace [OF pos] by blast
  moreover obtain new1 where "snd ?st' = tr @ BulkRequest (bulkBody (take ?B records)) # new1"
    using bulkWindow_trace [of env "take ?B (drop 0 records)" 0 tr] by auto
  ultimately show ?thesis unfolding dynamicMicroBatch_def by simp
qed

section \<open>Properties of syncFile and of the deletion loop\<close>

lemma syncFile_unreadable:
  "s3_get env tr filename = Inl e \<Longrightarrow>
   syncFile env filename tr =
     (\<lparr>f_success = False, f_error = Some e, f_syncedRecords = 0, f_syncedIds = []\<rparr>, tr @ [GetObject filename])"
  by (simp add: syncFile_def)

lemma syncFile_readable:
  assumes "s3_get env tr filename = Inr records"
    and "dynamicMicroBatch env records (tr @ [GetObject filename, EnsureIndex]) = (syncedCount, tr2)"
  shows "syncFile env filename tr =
     (if syncedCount \<ge> length records then
        (case s3_delete env tr2 filename of
           Inl e \<Rightarrow> (\<lparr>f_success = False, f_error = Some e, f_syncedRecords = 0, f_syncedIds = []\<rparr>,
                      tr2 @ [DeleteObject filename])
         | Inr u \<Rightarrow> (\<lparr>f_success = True, f_error = None, f_syncedRecords = syncedCount,
                       f_syncedIds = map rec_id records\<rparr>, tr2 @ [DeleteObject filename]))
      else (\<lparr>f_success = True, f_error = None, f_syncedRecords = syncedCount,
              f_syncedIds = map rec_id records\<rparr>, tr2))"
  using assms by (simp add: syncFile_def Let_def)

lemma deleteLoop_stops:
  assumes "\<forall>k < length before. \<exists>u. s3_delete env (tr @ map DeleteObject (take k before)) (before ! k) = Inr u"
    and "s3_delete env (tr @ map DeleteObject before) file = Inl e"
  shows "deleteLoop env (before @ file # rest) deletedCount tr
           = (Inl e, tr @ map DeleteObject before @ [DeleteObject file])"
  using assms
proof (induction before arbitrary: tr deletedCount)
  case Nil
  then show ?case by simp
next
  case (Cons b bs)
  obtain u where b: "s3_delete env tr b = Inr u" using Cons.prems(1) by fastforce
  have "\<forall>k < length bs. \<exists>u. s3_delete env ((tr @ [DeleteObject b]) @ map DeleteObject (take k bs)) (bs ! k) = Inr u"
  proof (intro allI impI)
    fix k assume "k < length bs"
    then have "Suc k < length (b # bs)" by simp
    then show "\<exists>u. s3_delete env ((tr @ [DeleteObject b]) @ map DeleteObject (take k bs)) (bs ! k) = Inr u"
      using Cons.prems(1) [rule_format, of "Suc k"] by simp
  qed
  moreover have "s3_delete env ((tr @ [DeleteObject b]) @ map DeleteObject bs) file = Inl e"
    using Cons.prems(2) by simp
  ultimately have "deleteLoop env (bs @ file # rest) (deletedCount + 1) (tr @ [DeleteObject b])
      = (Inl e, (tr @ [DeleteObject b]) @ map DeleteObject bs @ [DeleteObject file])"
    by (rule Cons.IH)
  then show ?case using b by simp
qed

section \<open>Evaluation of the sample inputs\<close>

lemma length_toString_le: "length (toString n) \<le> Suc n"
proof (induction n rule: toString.induct)
  case (1 n)
  show ?case
  proof (cases "n < 10")
    case True
    then show ?thesis by (simp add: toString_digit)
  next
    case False
    then have "length (toString (n div 10)) \<le> Suc (n div 10)" using 1 by simp
    moreover have "length (toString n) = length (toString (n div 10)) + 1"
      using False by (subst toString.simps) simp
    moreover have "n div 10 + 1 \<le> n" using False by simp
    ultimately show ?thesis by linarith
  qed
qed

lemma recordOf_sum_le:
  "(\<Sum>r\<leftarrow>map (\<lambda>i. recordOf i pad) [a..<b]. recordBytes r) \<le> (b - a) * (2 * b + pad + 84)"
proof (induction "b - a" arbitrary: a)
  case 0
  then show ?case by simp
next
  case (Suc n)
  then have lt: "a < b" by simp
  then have e: "[a..<b] = a # [Suc a..<b]" by (simp add: upt_rec)
  have ih: "(\<Sum>r\<leftarrow>map (\<lambda>i. recordOf i pad) [Suc a..<b]. recordBytes r) \<le> (b - Suc a) * (2 * b + pad + 84)"
    using Suc by (intro Suc.hyps(1)) simp
  have "length (toString a) \<le> b" using length_toString_le [of a] lt by simp
  then have h: "recordBytes (recordOf a pad) \<le> 2 * b + pad + 84"
    by (simp add: recordBytes_recordOf)
  have "(b - a) * (2 * b + pad + 84) = (2 * b + pad + 84) + (b - Suc a) * (2 * b + pad + 84)"
    using lt by (metis Suc_diff_Suc mult_Suc)
  then show ?case unfolding e using ih h by simp
qed

lemma tenRecords_B: "probeBatchSize tenRecords = 10"
proof -
  have l: "min INITIAL_BATCH_SIZE (length tenRecords) = 10"
    by (simp add: tenRecords_def INITIAL_BATCH_SIZE_def)
  have t: "take 10 tenRecords = tenRecords" by (simp add: tenRecords_def)
  have "(\<Sum>r\<leftarrow>tenRecords. recordBytes r) \<le> (11 - 1) * (2 * 11 + 10 + 84)"
    unfolding tenRecords_def by (rule recordOf_sum_le)
  then have "probeFits tenRecords 10"
    unfolding probeFits_def t payloadSize_bulkBody fitsPayload_def MAX_PAYLOAD_MB_def by simp
  then show ?thesis unfolding probeBatchSize_def l
    by (intro probeLoop_eq) simp_all
qed

lemma single_window:
  assumes "probeBatchSize records = length records" "records \<noteq> []"
  shows "dynamicMicroBatch env records tr = bulkWindow env records (0, tr)"
proof -
  have "batchLoop env records (length records) 0 (0, tr)
      = batchLoop env records (length records) (0 + length records) (bulkWindow env (take (length records) (drop 0 records)) (0, tr))"
    using assms(2) by (subst batchLoop_unfold) simp_all
  also have "\<dots> = bulkWindow env records (0, tr)"
    using assms(2) by (subst batchLoop_unfold) simp_all
  finally show ?thesis unfolding dynamicMicroBatch_def assms(1) .
qed

lemma honest_sampleEnv: "honestIndex sampleEnv"
  by (auto simp: honestIndex_def sampleEnv_def successItems_def)

lemma honest_allOfTenEnv: "honestIndex allOfTenEnv"
  by (auto simp: honestIndex_def allOfTenEnv_def sampleEnv_def successItems_def)

lemma honest_sevenOfTenEnv: "honestIndex sevenOfTenEnv"
proof -
  have "2 * length (successItems \<lparr>errors = True, items = Some (take (length body div 2) its)\<rparr>) \<le> length body"
    for body :: "string list" and its :: "bulk_item list"
  proof -
    have "length (successItems \<lparr>errors = True, items = Some (take (length body div 2) its)\<rparr>)
            \<le> length (take (length body div 2) its)"
      unfolding successItems_def by (simp del: length_take)
    also have "\<dots> \<le> length body div 2" by simp
    finally show ?thesis by linarith
  qed
  then show ?thesis
    by (auto simp: honestIndex_def sevenOfTenEnv_def)
qed

lemma filter_item201: "filter itemSucceeded (replicate n item201) = replicate n item201"
  by (induction n) (simp_all add: itemSucceeded_def itemAction_def item201_def)

lemma filter_item429: "filter itemSucceeded (replicate n item429) = []"
  by (induction n) (simp_all add: itemSucceeded_def itemAction_def item429_def)

lemma seven_count:
  "dynamicMicroBatch sevenOfTenEnv tenRecords tr = (7, tr @ [BulkRequest (bulkBody tenRecords)])"
proof -
  have ne: "tenRecords \<noteq> []" and l: "length tenRecords = 10" by (simp_all add: tenRecords_def)
  show ?thesis
    using tenRecords_B l ne
    by (simp add: single_window bulkWindow_def sevenOfTenEnv_def confirmed_def successItems_def
          length_bulkBody sevenCreated_def filter_item201 filter_item429)
qed

lemma all_count:
  "dynamicMicroBatch allOfTenEnv tenRecords tr = (10, tr @ [BulkRequest (bulkBody tenRecords)])"
proof -
  have ne: "tenRecords \<noteq> []" and l: "length tenRecords = 10" by (simp_all add: tenRecords_def)
  show ?thesis
    using tenRecords_B l ne
    by (simp add: single_window bulkWindow_def allOfTenEnv_def sampleEnv_def confirmed_def)
qed

section \<open>Properties of syncAll\<close>

lemma indexEvent_not_put: "indexEvent ev \<Longrightarrow> \<not> isPut ev"
  by (cases ev) (simp_all add: indexEvent_def isPut_def)

lemma syncFile_trace:
  "\<exists>new. snd (syncFile env filename tr) = tr @ GetObject filename # new \<and> (\<forall>ev \<in> set new. \<not> isPut ev)"
proof (cases "s3_get env tr filename")
  case (Inl e)
  then show ?thesis by (simp add: syncFile_unreadable)
next
  case (Inr records)
  let ?tr1 = "tr @ [GetObject filename, EnsureIndex]"
  obtain syncedCount tr2 where d: "dynamicMicroBatch env records ?tr1 = (syncedCount, tr2)"
    by (cases "dynamicMicroBatch env records ?tr1")
  obtain new1 where n1: "tr2 = ?tr1 @ new1" "\<forall>ev \<in> set new1. indexEvent ev"
    using dynamicMicroBatch_trace [of env records ?tr1] d by auto
  have np: "\<forall>ev \<in> set new1. \<not> isPut ev" using n1(2) indexEvent_not_put by blast
  have "snd (syncFile env filename tr) = tr @ GetObject filename # (EnsureIndex # new1 @ [DeleteObject filename])
      \<or> snd (syncFile env filename tr) = tr @ GetObject filename # (EnsureIndex # new1)"
    using syncFile_readable [OF Inr d] n1(1) by (simp split: sum.splits)
  moreover have "\<forall>ev \<in> set (EnsureIndex # new1 @ [DeleteObject filename]). \<not> isPut ev"
    using np by (simp add: isPut_def)
  moreover have "\<forall>ev \<in> set (EnsureIndex # new1). \<not> isPut ev"
    using np by (simp add: isPut_def)
  ultimately show ?thesis by blast
qed

lemma syncFile_failure_zero:
  "\<not> f_success (fst (syncFile env filename tr)) \<Longrightarrow>
   f_syncedRecords (fst (syncFile env filename tr)) = 0 \<and> f_syncedIds (fst (syncFile env filename tr)) = []"
  by (auto simp: syncFile_def Let_def split: sum.splits prod.splits if_splits)

lemma syncFiles_trace:
  "\<exists>new. snd (snd (snd (syncFiles env files (totalSynced, successCount, allSyncedIds, tr)))) = tr @ new
         \<and> (\<forall>ev \<in> set new. \<not> isPut ev)
         \<and> (\<forall>file \<in> set files. GetObject file \<in> set new)"
proof (induction files arbitrary: totalSynced successCount allSyncedIds tr)
  case Nil
  then show ?case by simp
next
  case (Cons k files)
  obtain result tr' where r: "syncFile env k tr = (result, tr')" by (cases "syncFile env k tr")
  obtain new1 where n1: "tr' = tr @ GetObject k # new1" "\<forall>ev \<in> set new1. \<not> isPut ev"
    using syncFile_trace [of env k tr] r by auto
  obtain a b c where step: "syncFiles env (k # files) (totalSynced, successCount, allSyncedIds, tr)
       = syncFiles env files (a, b, c, tr')"
    using r by (cases "f_success result") simp_all
  obtain new where n: "snd (snd (snd (syncFiles env files (a, b, c, tr')))) = tr' @ new"
      "\<forall>ev \<in> set new. \<not> isPut ev" "\<forall>file \<in> set files. GetObject file \<in> set new"
    using Cons.IH [of a b c tr'] by blast
  have "snd (snd (snd (syncFiles env (k # files) (totalSynced, successCount, allSyncedIds, tr))))
      = tr @ (GetObject k # new1 @ new)"
    unfolding step using n(1) n1(1) by simp
  moreover have "\<forall>ev \<in> set (GetObject k # new1 @ new). \<not> isPut ev"
    using n(2) n1(2) by (auto simp: isPut_def)
  moreover have "\<forall>f \<in> set (k # files). GetObject f \<in> set (GetObject k # new1 @ new)"
    using n(3) by auto
  ultimately show ?case by blast
qed

lemma syncAll_list_failed:
  "s3_list env tr ''unsynced_'' = Inl e \<Longrightarrow>
   \<not> s_success (fst (syncAll env workflowId tr)) \<and> snd (syncAll env workflowId tr) = tr @ [ListObjects ''unsynced_'']"
  by (simp add: syncAll_def)

lemma syncAll_no_files:
  "s3_list env tr ''unsynced_'' = Inr [] \<Longrightarrow>
   s_success (fst (syncAll env workflowId tr)) \<and> snd (syncAll env workflowId tr) = tr @ [ListObjects ''unsynced_'']"
  by (simp add: syncAll_def)

lemma syncAll_files:
  assumes "s3_list env tr ''unsynced_'' = Inr listed" "listed \<noteq> []"
    and "syncFiles env (localeSort env listed) (0, 0, [], tr @ [ListObjects ''unsynced_'']) = (totalSynced, successCount, allSyncedIds, tr2)"
  shows "allSyncedIds = [] \<Longrightarrow>
           s_success (fst (syncAll env workflowId tr)) \<and> snd (syncAll env workflowId tr) = tr2"
    and "allSyncedIds \<noteq> [] \<Longrightarrow>
           (s_success (fst (syncAll env workflowId tr)) \<longleftrightarrow>
              (\<exists>u. s3_put env tr2 (syncLogPath workflowId (clock env tr2)) = Inr u))
         \<and> snd (syncAll env workflowId tr) =
              tr2 @ [PutObject (syncLogPath workflowId (clock env tr2)) (SyncLogBody workflowId allSyncedIds)]"
  using assms by (auto simp: syncAll_def Let_def split: sum.splits)

lemma syncAll_outcome:
  "(\<not> s_success (fst (syncAll env workflowId tr))) \<longleftrightarrow>
     (\<exists>e. s3_list env tr ''unsynced_'' = Inl e)
   \<or> (\<exists>tr2 key body e. snd (syncAll env workflowId tr) = tr2 @ [PutObject key body] \<and> s3_put env tr2 key = Inl e)"
proof (cases "s3_list env tr ''unsynced_''")
  case (Inl e)
  then show ?thesis using syncAll_list_failed [OF Inl] by auto
next
  case (Inr listed)
  show ?thesis
  proof (cases "listed = []")
    case True
    then show ?thesis using syncAll_no_files [of env tr workflowId] Inr by auto
  next
    case False
    let ?tr1 = "tr @ [ListObjects ''unsynced_'']"
    obtain totalSynced successCount allSyncedIds tr2 where
      s: "syncFiles env (localeSort env listed) (0, 0, [], ?tr1) = (totalSynced, successCount, allSyncedIds, tr2)"
      by (cases "syncFiles env (localeSort env listed) (0, 0, [], ?tr1)") auto
    obtain new where n: "tr2 = ?tr1 @ new" "\<forall>ev \<in> set new. \<not> isPut ev"
      using syncFiles_trace [of env "localeSort env listed" 0 0 "[]" ?tr1] s by auto
    have lastnp: "\<not> isPut (last tr2)"
    proof (cases "new = []")
      case True
      then show ?thesis using n(1) by (simp add: isPut_def)
    next
      case False
      then have "last tr2 \<in> set new" using n(1) by simp
      then show ?thesis using n(2) by blast
    qed
    have ne: "tr2 \<noteq> []" using n(1) by simp
    show ?thesis
    proof (cases "allSyncedIds = []")
      case True
      have "tr2 \<noteq> tr' @ [PutObject key body]" for tr' key body
        using lastnp by (auto simp: isPut_def)
      then show ?thesis using syncAll_files(1) [OF Inr False s True, of workflowId] Inr by auto
    next
      case ids: False
      show ?thesis
        using syncAll_files(2) [OF Inr False s ids, of workflowId] Inr
        by (cases "s3_put env tr2 (syncLogPath workflowId (clock env tr2))") auto
    qed
  qed
qed

lemma syncAll_attempts_all:
  assumes "s3_list env tr ''unsynced_'' = Inr listed" "listed \<noteq> []" "file \<in> set (localeSort env listed)"
  shows "GetObject file \<in> set (snd (syncAll env workflowId tr))"
proof -
  let ?tr1 = "tr @ [ListObjects ''unsynced_'']"
  obtain totalSynced successCount allSyncedIds tr2 where
    s: "syncFiles env (localeSort env listed) (0, 0, [], ?tr1) = (totalSynced, successCount, allSyncedIds, tr2)"
    by (cases "syncFiles env (localeSort env listed) (0, 0, [], ?tr1)") auto
  obtain new where n: "tr2 = ?tr1 @ new" "\<forall>file \<in> set (localeSort env listed). GetObject file \<in> set new"
    using syncFiles_trace [of env "localeSort env listed" 0 0 "[]" ?tr1] s by auto
  have "GetObject file \<in> set tr2" using n assms(3) by simp
  then show ?thesis
    using syncAll_files [OF assms(1,2) s, of workflowId] by (cases "allSyncedIds = []") auto
qed

lemma twoRecords_B: "probeBatchSize twoRecords = 2"
proof -
  have l: "min INITIAL_BATCH_SIZE (length twoRecords) = 2"
    by (simp add: twoRecords_def INITIAL_BATCH_SIZE_def)
  have "probeFits twoRecords 2"
    by (simp add: probeFits_def twoRecords_def payloadSize_bulkBody fitsPayload_def MAX_PAYLOAD_MB_def
          recordBytes_recordOf toString_digit)
  then show ?thesis unfolding probeBatchSize_def l
    by (intro probeLoop_eq) simp_all
qed

lemma two_count:
  "dynamicMicroBatch sampleEnv twoRecords tr = (2, tr @ [BulkRequest (bulkBody twoRecords)])"
proof -
  have ne: "twoRecords \<noteq> []" and l: "length twoRecords = 2" by (simp_all add: twoRecords_def)
  show ?thesis
    using twoRecords_B l ne
    by (simp add: single_window bulkWindow_def sampleEnv_def confirmed_def)
qed

lemma syncFile_sample_1:
  "syncFile sampleEnv ''unsynced_0001.jsonl'' tr =
     (\<lparr>f_success = True, f_error = None, f_syncedRecords = 2, f_syncedIds = [1, 2]\<rparr>,
      tr @ [GetObject ''unsynced_0001.jsonl'', EnsureIndex, BulkRequest (bulkBody twoRecords),
            DeleteObject ''unsynced_0001.jsonl''])"
proof -
  have g: "s3_get sampleEnv tr ''unsynced_0001.jsonl'' = Inr twoRecords"
    by (simp add: sampleEnv_def stagedGet_def)
  have d: "s3_delete sampleEnv tr' ''unsynced_0001.jsonl'' = Inr ()" for tr'
    by (simp add: sampleEnv_def)
  have i: "map rec_id twoRecords = [1, 2]" by (simp add: twoRecords_def recordOf_def)
  have l: "length twoRecords = 2" by (simp add: twoRecords_def)
  show ?thesis
    unfolding syncFile_readable [OF g two_count] by (simp add: d i l)
qed

lemma syncFile_sample_2:
  "syncFile sampleEnv ''unsynced_0002.jsonl'' tr =
     (\<lparr>f_success = False, f_error = Some ''Unexpected end of JSON input'', f_syncedRecords = 0, f_syncedIds = []\<rparr>,
      tr @ [GetObject ''unsynced_0002.jsonl''])"
  by (rule syncFile_unreadable) (simp add: sampleEnv_def stagedGet_def)

lemma syncAll_sample:
  "syncAll sampleEnv None [] =
     (\<lparr>s_success = True, s_error = None, s_syncedFiles = 1, s_totalFiles = Some 2,
       s_totalRecords = 2, s_syncedIdsCount = Some 2\<rparr>,
      [ListObjects ''unsynced_'',
       GetObject ''unsynced_0001.jsonl'', EnsureIndex, BulkRequest (bulkBody twoRecords),
       DeleteObject ''unsynced_0001.jsonl'',
       GetObject ''unsynced_0002.jsonl'',
       PutObject ''log/sync_log_ids_2026-01-01T00-00-00-000Z.json'' (SyncLogBody None [1, 2])])"
proof -
  have e: "s3_list sampleEnv [] ''unsynced_'' = Inr [''unsynced_0001.jsonl'', ''unsynced_0002.jsonl'']"
    "localeSort sampleEnv ks = ks" "s3_put sampleEnv tr' key = Inr ()"
    "clock sampleEnv tr' = ''2026-01-01T00:00:00.000Z''" for ks tr' key
    by (simp_all add: sampleEnv_def)
  show ?thesis
    by (simp add: syncAll_def e syncFile_sample_1 syncFile_sample_2 setAdd_def syncLogPath_def replaceColonDot_def)
qed

lemma syncAll_unreadable:
  "syncAll unreadableEnv None [] =
     (\<lparr>s_success = True, s_error = None, s_syncedFiles = 0, s_totalFiles = Some 2,
       s_totalRecords = 0, s_syncedIdsCount = Some 0\<rparr>,
      [ListObjects ''unsynced_'', GetObject ''unsynced_0001.jsonl'', GetObject ''unsynced_0002.jsonl''])"
proof -
  have g: "syncFile unreadableEnv key tr =
     (\<lparr>f_success = False, f_error = Some ''NoSuchKey'', f_syncedRecords = 0, f_syncedIds = []\<rparr>, tr @ [GetObject key])"
    for key tr
    by (rule syncFile_unreadable) (simp add: unreadableEnv_def)
  have e: "s3_list unreadableEnv [] ''unsynced_'' = Inr [''unsynced_0001.jsonl'', ''unsynced_0002.jsonl'']"
    "localeSort unreadableEnv ks = ks" for ks
    by (simp_all add: unreadableEnv_def sampleEnv_def)
  show ?thesis
    by (simp add: syncAll_def e g)
qed

section \<open>Properties of testSync\<close>

lemma testSync_compares:
  assumes "te_count te = Inr actual" "te_sample te = Inr u" "te_buckets te = Inr buckets"
    and "filter (\<lambda>doc_count. doc_count > 1) buckets = []"
    and "te_listSummaries te = Inr summaryFiles" "summaryFiles \<noteq> []"
    and "te_readSummary te (fst (hd (sortLatestFirst summaryFiles))) = Inr expected"
  shows "testSync te = compareCounts expected actual"
  using assms by (simp add: testSync_def Let_def)

lemma compareCounts_table:
  "compareCounts expected actual =
     (if expected = actual then passed actual
      else if expected > actual
      then testResult0\<lparr>t_success := False, t_totalRecords := Some actual, t_missing := Some (expected - actual)\<rparr>
      else passed actual)"
  by (simp add: compareCounts_def passed_def Let_def)

lemma sorted_hd_least:
  assumes "sorted (map f xs)" "y \<in> set xs"
  shows "f (hd xs) \<le> f y"
  using assms by (cases xs) auto

lemma latest_first:
  assumes "(key, t) \<in> set summaryFiles"
    and "\<forall>f \<in> set summaryFiles. f \<noteq> (key, t) \<longrightarrow> snd f < t"
  shows "hd (sortLatestFirst summaryFiles) = (key, t)"
proof -
  let ?s = "sort_key (\<lambda>f. - snd f) summaryFiles"
  have m: "(key, t) \<in> set ?s" using assms(1) by simp
  then have ne: "?s \<noteq> []" by (metis empty_iff list.set(1))
  have "sorted (map (\<lambda>f. - snd f) ?s)" by (rule sorted_sort_key)
  then have "- snd (hd ?s) \<le> - snd (key, t)" using m by (rule sorted_hd_least)
  then have ge: "t \<le> snd (hd ?s)" by simp
  have "hd ?s \<in> set summaryFiles" using ne hd_in_set [of ?s] by simp
  then have "hd ?s = (key, t)" using assms(2) ge by fastforce
  then show ?thesis by (simp add: sortLatestFirst_def)
qed

lemma countsTestEnv_hyps:
  "te_count (countsTestEnv e a) = Inr a" "te_sample (countsTestEnv e a) = Inr ()"
  "te_buckets (countsTestEnv e a) = Inr [1, 1, 1]" "\<forall>doc_count \<in> set [1, 1, 1::nat]. doc_count \<le> 1"
  "te_listSummaries (countsTestEnv e a)
     = Inr [(''log/download_summary_a.json'', 10), (''log/download_summary_b.json'', 20)]"
  "(''log/download_summary_b.json'', 20)
     \<in> set [(''log/download_summary_a.json'', 10), (''log/download_summary_b.json'', 20::int)]"
  "\<forall>f \<in> set [(''log/download_summary_a.json'', 10), (''log/download_summary_b.json'', 20::int)].
      f \<noteq> (''log/download_summary_b.json'', 20) \<longrightarrow> snd f < 20"
  "te_readSummary (countsTestEnv e a) ''log/download_summary_b.json'' = Inr e"
  "te_readSummary (countsTestEnv e a) ''log/download_summary_a.json'' = Inr (e + 7)"
  by (simp_all add: countsTestEnv_def)

section \<open>Properties of the retry loop and of orchestrate\<close>

lemma count_callSync [simp]:
  "count_list (snd (callSync env tr)) CalledSync = Suc (count_list tr CalledSync)"
  "count_list (snd (callSync env tr)) CalledTest = count_list tr CalledTest"
  "count_list (snd (callTest env tr)) CalledTest = Suc (count_list tr CalledTest)"
  "count_list (snd (callTest env tr)) CalledSync = count_list tr CalledSync"
  by (simp_all add: callSync_def callTest_def)

declare resyncLoop.simps [simp del]

lemma resyncLoop_done:
  "t_success cur \<or> \<not> retryCount < MAX_RETRIES \<Longrightarrow> resyncLoop env cur retryCount tr = (Inr cur, retryCount, tr)"
  by (subst resyncLoop.simps) auto

lemma resyncLoop_fatal:
  "\<not> t_success cur \<Longrightarrow> retryCount < MAX_RETRIES \<Longrightarrow> \<not> s_success (fst (callSync env tr)) \<Longrightarrow>
   retryCount + 1 \<ge> MAX_RETRIES \<Longrightarrow>
   resyncLoop env cur retryCount tr =
     (Inl (failedAt ''resync'' (Some ''Re-sync failed after max retries'')), retryCount + 1, snd (callSync env tr))"
  by (subst resyncLoop.simps) simp

lemma resyncLoop_continue:
  "\<not> t_success cur \<Longrightarrow> retryCount < MAX_RETRIES \<Longrightarrow> \<not> s_success (fst (callSync env tr)) \<Longrightarrow>
   \<not> retryCount + 1 \<ge> MAX_RETRIES \<Longrightarrow>
   resyncLoop env cur retryCount tr = resyncLoop env cur (retryCount + 1) (snd (callSync env tr))"
  by (subst resyncLoop.simps) simp

lemma resyncLoop_retest:
  "\<not> t_success cur \<Longrightarrow> retryCount < MAX_RETRIES \<Longrightarrow> s_success (fst (callSync env tr)) \<Longrightarrow>
   resyncLoop env cur retryCount tr =
     resyncLoop env (fst (callTest env (snd (callSync env tr)))) (retryCount + 1)
       (snd (callTest env (snd (callSync env tr))))"
  by (subst resyncLoop.simps) simp

lemma resyncLoop_exit:
  "retryCount \<le> MAX_RETRIES \<Longrightarrow> loopExit env retryCount tr (resyncLoop env cur retryCount tr)"
proof (induction env cur retryCount tr rule: resyncLoop.induct)
  case (1 env cur retryCount tr)
  show ?case
  proof (cases "t_success cur \<or> \<not> retryCount < MAX_RETRIES")
    case True
    then show ?thesis using "1.prems" by (auto simp: resyncLoop_done loopExit_def)
  next
    case False
    then have f: "\<not> t_success cur" "retryCount < MAX_RETRIES" by simp_all
    show ?thesis
    proof (cases "s_success (fst (callSync env tr))")
      case True
      let ?t = "fst (callTest env (snd (callSync env tr)))"
      let ?tr = "snd (callTest env (snd (callSync env tr)))"
      have "loopExit env (retryCount + 1) ?tr (resyncLoop env ?t (retryCount + 1) ?tr)"
        using "1.IH"(2) f True by simp
      then show ?thesis
        unfolding resyncLoop_retest [OF f True]
        by (auto simp: loopExit_def split: prod.splits sum.splits)
    next
      case s: False
      show ?thesis
      proof (cases "retryCount + 1 \<ge> MAX_RETRIES")
        case True
        then show ?thesis
          unfolding resyncLoop_fatal [OF f s True] using f s
          by (auto simp: loopExit_def callSync_def)
      next
        case False
        let ?tr = "snd (callSync env tr)"
        have "loopExit env (retryCount + 1) ?tr (resyncLoop env cur (retryCount + 1) ?tr)"
          using "1.IH"(1) f s False by simp
        then show ?thesis
          unfolding resyncLoop_continue [OF f s False]
          by (auto simp: loopExit_def split: prod.splits sum.splits)
      qed
    qed
  qed
qed

lemma cleanAndLog_trace:
  "\<exists>new. snd (cleanAndLog env d s t m tr) = tr @ new"
  by (auto simp: cleanAndLog_def Let_def split: sum.splits option.splits)

lemma markStep_calls_mark:
  "CalledMark \<in> set (snd (markStep env d s t tr))"
proof -
  obtain new where "snd (cleanAndLog env d s t None (tr @ [CalledMark])) = (tr @ [CalledMark]) @ new"
    using cleanAndLog_trace by blast
  then show ?thesis
    by (auto simp: markStep_def Let_def split: sum.splits)
qed

lemma orchestrate_reaches_mark:
  assumes "o_download env = Inr d" "d_success d" "s_success (o_sync env 0)"
    and "resyncLoop env (o_test env 0) 0 [CalledDownload, CalledSync, CalledTest] = (Inr cur, rc, tr)"
  shows "orchestrate env = markStep env d (o_sync env 0) (o_test env 0) tr"
  using assms by (simp add: orchestrate_def callSync_def callTest_def Let_def)

lemma orchestrate_variant_reaches_mark:
  assumes "o_download env = Inr d" "d_success d" "s_success (o_sync env 0)"
    and "resyncLoop env (o_test env 0) 0 [CalledDownload, CalledSync, CalledTest] = (Inr cur, rc, tr)"
  shows "orchestrate_variant env =
     (if \<not> m_success (o_mark env) then (failedAt ''mark'' (m_error (o_mark env)), tr @ [CalledMark])
      else cleanAndLog env d (o_sync env 0) (o_test env 0) (Some (o_mark env)) (tr @ [CalledMark]))"
  using assms by (simp add: orchestrate_variant_def callSync_def callTest_def Let_def)

lemma orchestrate_variant_calls_mark:
  assumes "o_download env = Inr d" "d_success d" "s_success (o_sync env 0)"
    and "resyncLoop env (o_test env 0) 0 [CalledDownload, CalledSync, CalledTest] = (Inr cur, rc, tr)"
  shows "CalledMark \<in> set (snd (orchestrate_variant env))"
proof -
  obtain new where "snd (cleanAndLog env d (o_sync env 0) (o_test env 0) (Some (o_mark env)) (tr @ [CalledMark]))
      = (tr @ [CalledMark]) @ new"
    using cleanAndLog_trace by blast
  then show ?thesis unfolding orchestrate_variant_reaches_mark [OF assms] by auto
qed

lemma markAsSynced_no_logs:
  "me_list me (syncLogPrefix workflowId) = Inr [] \<Longrightarrow>
   markAsSynced me workflowId = markResult0\<lparr>m_error := Some ''No sync log files found''\<rparr>"
  by (simp add: markAsSynced_def NO_SYNC_LOGS_def)

lemma test_vals:
  "t_success (compareCounts 2 2)" "\<not> t_success (compareCounts 2 1)" "t_success (compareCounts 0 120)"
  by (simp_all add: compareCounts_def testResult0_def)

lemma noDataRun_fields:
  "o_workflowId noDataRun = ''m1abc''"
  "o_mark noDataRun = markAsSynced noLogsMarkEnv (Some ''m1abc'')"
  "o_download noDataRun = Inr \<lparr>d_success = True, d_totalRecords = 0, d_fileCount = 0, d_files = []\<rparr>"
  "s_success (o_sync noDataRun n)"
  "o_test noDataRun n = compareCounts 0 120"
  "o_saveLog noDataRun = Inr ''log/sync_log_2026.json''"
  by (simp_all add: noDataRun_def allOkRun_def)

lemma noDataSaveFailsRun_fields:
  "o_workflowId noDataSaveFailsRun = ''m1abc''"
  "o_mark noDataSaveFailsRun = markAsSynced noLogsMarkEnv (Some ''m1abc'')"
  "o_download noDataSaveFailsRun = Inr \<lparr>d_success = True, d_totalRecords = 0, d_fileCount = 0, d_files = []\<rparr>"
  "s_success (o_sync noDataSaveFailsRun n)"
  "o_test noDataSaveFailsRun n = compareCounts 0 120"
  "o_saveLog noDataSaveFailsRun = Inl ''ServiceUnavailable''"
  by (simp_all add: noDataSaveFailsRun_def noDataRun_def allOkRun_def)

lemma allOkRun_fields:
  "o_download allOkRun = Inr okDownload" "o_sync allOkRun n = okSync" "o_test allOkRun n = compareCounts 2 2"
  "o_mark allOkRun = okMark" "o_clean allOkRun = okClean" "o_saveLog allOkRun = Inr ''log/sync_log_2026.json''"
  "o_startTime allOkRun = 1000" "o_endTime allOkRun = 61000"
  by (simp_all add: allOkRun_def)

lemma ok_vals:
  "d_success okDownload" "s_success okSync" "m_success okMark" "c_success okClean" "\<not> s_success failedSync"
  by (simp_all add: okDownload_def okSync_def okMark_def okClean_def markResult0_def failedSync_def)

lemma resyncLoop_fatal_is_resync:
  assumes "resyncLoop env cur 0 tr = (Inl fatal, rc, tr')"
  shows "fatal = failedAt ''resync'' (Some ''Re-sync failed after max retries'')"
  using resyncLoop_exit [of 0 env tr cur] assms by (simp add: loopExit_def)

lemma orchestrate_success_is_no_data:
  assumes "r_success (fst (orchestrate env))"
  shows "\<not> m_success (o_mark env)"
proof
  assume m: "m_success (o_mark env)"
  have c: "\<not> r_success (fst (cleanAndLog env d s t None tr))" for d s t tr
    by (simp add: cleanAndLog_def failedAt_def uncaught_def Let_def split: sum.splits)
  have k: "\<not> r_success (fst (markStep env d s t tr))" for d s t tr
    using m c by (simp add: markStep_def Let_def)
  have "\<not> r_success (fst (orchestrate env))"
  proof (cases "o_download env")
    case (Inl e)
    then show ?thesis by (simp add: orchestrate_def failedAt_def)
  next
    case (Inr d)
    show ?thesis
    proof (cases "d_success d \<and> s_success (o_sync env 0)")
      case False
      then show ?thesis using Inr
        by (auto simp: orchestrate_def failedAt_def callSync_def Let_def)
    next
      case True
      obtain outcome rc tr where r:
        "resyncLoop env (o_test env 0) 0 [CalledDownload, CalledSync, CalledTest] = (outcome, rc, tr)"
        by (cases "resyncLoop env (o_test env 0) 0 [CalledDownload, CalledSync, CalledTest]") auto
      show ?thesis
      proof (cases outcome)
        case (Inl fatal)
        then have "fatal = failedAt ''resync'' (Some ''Re-sync failed after max retries'')"
          using r resyncLoop_fatal_is_resync by blast
        then show ?thesis using Inr True r Inl
          by (simp add: orchestrate_def callSync_def callTest_def Let_def failedAt_def)
      next
        case Inr2: (Inr cur)
        show ?thesis
          using orchestrate_reaches_mark [OF Inr _ _ r [unfolded Inr2]] True k by simp
      qed
    qed
  qed
  then show False using assms by simp
qed

lemma retry_run_fields:
  "o_download oneResyncRun = Inr okDownload" "o_sync oneResyncRun n = okSync"
  "o_test oneResyncRun n = (if n = 0 then compareCounts 2 1 else compareCounts 2 2)"
  "o_download testsFailRun = Inr okDownload" "o_sync testsFailRun n = okSync"
  "o_test testsFailRun n = compareCounts 2 1"
  "o_download resyncsFailRun = Inr okDownload" "o_sync resyncsFailRun n = (if n = 0 then okSync else failedSync)"
  "o_test resyncsFailRun n = compareCounts 2 1"
  by (simp_all add: oneResyncRun_def testsFailRun_def resyncsFailRun_def allOkRun_def)

lemma testsFailRun_loop:
  "resyncLoop testsFailRun (o_test testsFailRun 0) 0 [CalledDownload, CalledSync, CalledTest] =
     (Inr (compareCounts 2 1), 3,
      [CalledDownload, CalledSync, CalledTest, CalledSync, CalledTest, CalledSync, CalledTest,
       CalledSync, CalledTest])"
  by (simp add: resyncLoop.simps callSync_def callTest_def retry_run_fields test_vals ok_vals MAX_RETRIES_def)

lemma resyncsFailRun_loop:
  "resyncLoop resyncsFailRun (o_test resyncsFailRun 0) 0 [CalledDownload, CalledSync, CalledTest] =
     (Inl (failedAt ''resync'' (Some ''Re-sync failed after max retries'')), 3,
      [CalledDownload, CalledSync, CalledTest, CalledSync, CalledSync, CalledSync])"
  by (simp add: resyncLoop.simps callSync_def callTest_def retry_run_fields test_vals ok_vals MAX_RETRIES_def)

section \<open>The claims\<close>

text \<open>
  Claim C1, as amended. For a non-empty blob whose first record fits under the ceiling, the
  probe selects the largest batch size \<open>B\<close> between 1 and \<open>min 25 (length records)\<close> whose
  payload is at or under the 2 MB ceiling: the payload of the first \<open>B\<close> records fits, and
  no size above \<open>B\<close> and within that bound does. Nothing is said of \<open>B + 1\<close> when \<open>B\<close> is the
  bound itself, nor of a blob whose first record is above the ceiling (claim C9).
\<close>

theorem probe_selects_largest_fitting:
  assumes "records \<noteq> []" and "probeFits records 1"
  shows "1 \<le> probeBatchSize records
       \<and> probeBatchSize records \<le> min INITIAL_BATCH_SIZE (length records)
       \<and> probeFits records (probeBatchSize records)
       \<and> (\<forall>k. probeBatchSize records < k \<and> k \<le> min INITIAL_BATCH_SIZE (length records)
              \<longrightarrow> \<not> probeFits records k)"
proof -
  let ?m = "min INITIAL_BATCH_SIZE (length records)"
  have m: "1 \<le> ?m" using assms(1) by (cases records) (simp_all add: INITIAL_BATCH_SIZE_def)
  have r: "1 \<le> probeBatchSize records \<and> probeBatchSize records \<le> ?m"
    unfolding probeBatchSize_def using m assms(2) by (rule probeLoop_range)
  have f: "probeFits records (probeBatchSize records)"
    unfolding probeBatchSize_def using m assms(2) by (rule probeLoop_fits)
  have n: "\<not> probeFits records k" if "probeBatchSize records < k" "k \<le> ?m" for k
  proof
    assume fk: "probeFits records k"
    have lt: "probeBatchSize records < ?m" using that by simp
    have "\<not> probeFits records (probeBatchSize records + 1)"
      using probeLoop_next_exceeds [OF m assms(2)] lt unfolding probeBatchSize_def by blast
    moreover have "probeFits records (probeBatchSize records + 1)"
      using that(1) fk probeFits_antimono [of "probeBatchSize records + 1" k] by simp
    ultimately show False by blast
  qed
  show ?thesis using r f n by blast
qed

theorem probe_selects_largest_fitting_witness:
  "megabyteBlob \<noteq> [] \<and> probeFits megabyteBlob 1
   \<and> probeBatchSize megabyteBlob = 2
   \<and> probeFits megabyteBlob (probeBatchSize megabyteBlob)
   \<and> min INITIAL_BATCH_SIZE (length megabyteBlob) = 3
   \<and> \<not> probeFits megabyteBlob 3"
proof -
  have ne: "megabyteBlob \<noteq> []" by (simp add: megabyteBlob_def)
  have m: "min INITIAL_BATCH_SIZE (length megabyteBlob) = 3"
    by (simp add: megabyteBlob_def INITIAL_BATCH_SIZE_def)
  show ?thesis
    using probe_selects_largest_fitting [OF ne megabyte_vals(1)] ne megabyte_vals(1) megabyte_B m
    by simp
qed

text \<open>
  Claim C1 as stated fails in two ways. A blob of one record above the ceiling gets batch
  size 1, whose payload is above the ceiling. A blob of twenty-six records of one size
  (188 bytes each) gets batch size 25, and a batch of 26 would still fit.
\<close>

theorem probe_largest_under_ceiling_counterexample:
  "probeBatchSize oversizedBlob = 1
   \<and> \<not> probeFits oversizedBlob (probeBatchSize oversizedBlob)
   \<and> length uniformBlob = 26 \<and> set (map recordBytes uniformBlob) = {188}
   \<and> probeBatchSize uniformBlob = 25
   \<and> probeFits uniformBlob (probeBatchSize uniformBlob + 1)"
proof -
  have "probeBatchSize oversizedBlob = 1"
    using oversized_not_fits by (rule probeBatchSize_oversized)
  moreover have "length uniformBlob = 26 \<and> set (map recordBytes uniformBlob) = {188}"
    unfolding uniformBlob_def
    by (simp add: upt_rec recordBytes_recordOf length_toString_2)
  ultimately show ?thesis
    using oversized_not_fits uniform_B uniform_fits by simp
qed

text \<open>
  Claim C2. For a staged blob that \<open>syncFile\<close> could read, with \<open>syncedCount\<close> the count of
  records confirmed indexed in this attempt: \<open>syncFile\<close> issues the \<open>DeleteObject\<close> for the blob
  when \<open>syncedCount\<close> equals the number of records, and does not when it is below, so a
  blob with an unconfirmed record is retained. Its test is \<open>syncedCount >= records.length\<close>;
  against an index that reports on no more items than it was sent, \<open>syncedCount\<close> is at most
  the number of records, and the blob is deleted if and only if the two are equal. No other
  key is deleted.
\<close>

theorem blob_deleted_iff_all_confirmed:
  assumes "s3_get env tr filename = Inr records"
    and "syncedCount = fst (dynamicMicroBatch env records (tr @ [GetObject filename, EnsureIndex]))"
  shows "\<exists>new. snd (syncFile env filename tr) = tr @ new
           \<and> (syncedCount = length records \<longrightarrow> DeleteObject filename \<in> set new)
           \<and> (syncedCount < length records \<longrightarrow> DeleteObject filename \<notin> set new)
           \<and> (DeleteObject filename \<in> set new \<longleftrightarrow> syncedCount \<ge> length records)
           \<and> (honestIndex env \<longrightarrow>
                 syncedCount \<le> length records
               \<and> (DeleteObject filename \<in> set new \<longleftrightarrow> syncedCount = length records))
           \<and> (\<forall>key. DeleteObject key \<in> set new \<longrightarrow> key = filename)"
proof -
  let ?tr1 = "tr @ [GetObject filename, EnsureIndex]"
  obtain tr2 where d: "dynamicMicroBatch env records ?tr1 = (syncedCount, tr2)"
    using assms(2) by (cases "dynamicMicroBatch env records ?tr1") simp
  obtain new1 where n1: "tr2 = ?tr1 @ new1" "\<forall>ev \<in> set new1. indexEvent ev"
    using dynamicMicroBatch_trace [of env records ?tr1] d by auto
  have nodel: "DeleteObject key \<notin> set new1" for key
    using n1(2) by (auto simp: indexEvent_def)
  have le: "honestIndex env \<Longrightarrow> syncedCount \<le> length records"
    using dynamicMicroBatch_count_le [of env records ?tr1] d by simp
  show ?thesis
  proof (cases "syncedCount \<ge> length records")
    case True
    then have "snd (syncFile env filename tr) = tr @ ([GetObject filename, EnsureIndex] @ new1 @ [DeleteObject filename])"
      using syncFile_readable [OF assms(1) d] n1(1) by (simp split: sum.splits)
    moreover have "honestIndex env \<Longrightarrow> syncedCount = length records" using True le by simp
    ultimately show ?thesis using nodel True by auto
  next
    case False
    then have "snd (syncFile env filename tr) = tr @ ([GetObject filename, EnsureIndex] @ new1)"
      using syncFile_readable [OF assms(1) d] n1(1) by simp
    then show ?thesis using nodel False by auto
  qed
qed

theorem blob_deleted_iff_all_confirmed_witness:
  "s3_get sevenOfTenEnv [] ''unsynced_0001.jsonl'' = Inr tenRecords \<and> honestIndex sevenOfTenEnv
   \<and> fst (dynamicMicroBatch sevenOfTenEnv tenRecords ([] @ [GetObject ''unsynced_0001.jsonl'', EnsureIndex])) = 7
   \<and> length tenRecords = 10
   \<and> DeleteObject ''unsynced_0001.jsonl'' \<notin> set (snd (syncFile sevenOfTenEnv ''unsynced_0001.jsonl'' []))
   \<and> s3_get allOfTenEnv [] ''unsynced_0001.jsonl'' = Inr tenRecords \<and> honestIndex allOfTenEnv
   \<and> fst (dynamicMicroBatch allOfTenEnv tenRecords ([] @ [GetObject ''unsynced_0001.jsonl'', EnsureIndex])) = 10
   \<and> DeleteObject ''unsynced_0001.jsonl'' \<in> set (snd (syncFile allOfTenEnv ''unsynced_0001.jsonl'' []))"
proof -
  have g7: "s3_get sevenOfTenEnv [] ''unsynced_0001.jsonl'' = Inr tenRecords"
    by (simp add: sevenOfTenEnv_def)
  have g10: "s3_get allOfTenEnv [] ''unsynced_0001.jsonl'' = Inr tenRecords"
    by (simp add: allOfTenEnv_def)
  have l: "length tenRecords = 10" by (simp add: tenRecords_def)
  have c7: "7 = fst (dynamicMicroBatch sevenOfTenEnv tenRecords ([] @ [GetObject ''unsynced_0001.jsonl'', EnsureIndex]))"
    by (simp add: seven_count)
  have c10: "10 = fst (dynamicMicroBatch allOfTenEnv tenRecords ([] @ [GetObject ''unsynced_0001.jsonl'', EnsureIndex]))"
    by (simp add: all_count)
  show ?thesis
    using blob_deleted_iff_all_confirmed [OF g7 c7] blob_deleted_iff_all_confirmed [OF g10 c10]
      g7 g10 l honest_sevenOfTenEnv honest_allOfTenEnv
    by (auto simp: seven_count all_count)
qed

text \<open>
  Claim C3. Let \<open>testSync\<close> read the destination count \<open>actual\<close>, find no identifier occurring
  more than once, and read \<open>expected\<close> as the \<open>totalRecords\<close> of the download summary with the
  latest modification time, both counts being integers. Then its result is: pass with
  missing = 0 when expected equals actual; fail with missing = expected - actual when expected
  is above actual; pass with missing = 0 when expected is below actual, whether expected is 0
  or not. That is the count comparison of lines 252--273, whose last branch (fail with
  \<open>extra\<close>) is never taken on integer counts.
\<close>

theorem count_comparison:
  assumes "te_count te = Inr actual" and "te_sample te = Inr ()"
    and "te_buckets te = Inr buckets" and "\<forall>doc_count \<in> set buckets. doc_count \<le> 1"
    and "te_listSummaries te = Inr summaryFiles"
    and "(latestKey, lastModified) \<in> set summaryFiles"
    and "\<forall>f \<in> set summaryFiles. f \<noteq> (latestKey, lastModified) \<longrightarrow> snd f < lastModified"
    and "te_readSummary te latestKey = Inr expected"
  shows "testSync te =
           (if expected = actual then
              testResult0\<lparr>t_success := True, t_totalRecords := Some actual, t_missing := Some 0\<rparr>
            else if expected > actual then
              testResult0\<lparr>t_success := False, t_totalRecords := Some actual,
                           t_missing := Some (expected - actual)\<rparr>
            else
              testResult0\<lparr>t_success := True, t_totalRecords := Some actual, t_missing := Some 0\<rparr>)
       \<and> testSync te = compareCounts expected actual
       \<and> t_extra (testSync te) = None"
proof -
  have d: "filter (\<lambda>doc_count. doc_count > 1) buckets = []"
    using assms(4) by (auto simp: filter_empty_conv)
  have ne: "summaryFiles \<noteq> []" using assms(6) by auto
  have l: "fst (hd (sortLatestFirst summaryFiles)) = latestKey"
    using latest_first [OF assms(6,7)] by simp
  have t: "testSync te = compareCounts expected actual"
    using assms(1,2,3) d assms(5) ne
    by (rule testSync_compares) (simp add: l assms(8))
  show ?thesis
    unfolding t compareCounts_table by (simp add: passed_def testResult0_def)
qed

text \<open>
  The five examples of the specification, on a log folder whose older summary expects another
  count: 0/0 passes, 100/100 passes with missing = 0, 100/80 fails with missing = 20, 100/120
  passes, 50/0 fails with missing = 50.
\<close>

theorem count_comparison_witness:
  "te_count (countsTestEnv 100 80) = Inr 80
   \<and> te_readSummary (countsTestEnv 100 80) ''log/download_summary_b.json'' = Inr 100
   \<and> te_readSummary (countsTestEnv 100 80) ''log/download_summary_a.json'' = Inr 107
   \<and> testSync (countsTestEnv 0 0) = passed 0
   \<and> testSync (countsTestEnv 100 100) = passed 100
   \<and> testSync (countsTestEnv 100 80)
       = testResult0\<lparr>t_success := False, t_totalRecords := Some 80, t_missing := Some 20\<rparr>
   \<and> testSync (countsTestEnv 100 120) = passed 120
   \<and> testSync (countsTestEnv 50 0)
       = testResult0\<lparr>t_success := False, t_totalRecords := Some 0, t_missing := Some 50\<rparr>
   \<and> t_extra (testSync (countsTestEnv 100 120)) = None"
proof -
  note h = countsTestEnv_hyps
  have c: "testSync (countsTestEnv e a) =
           (if e = a then
              testResult0\<lparr>t_success := True, t_totalRecords := Some a, t_missing := Some 0\<rparr>
            else if e > a then
              testResult0\<lparr>t_success := False, t_totalRecords := Some a, t_missing := Some (e - a)\<rparr>
            else
              testResult0\<lparr>t_success := True, t_totalRecords := Some a, t_missing := Some 0\<rparr>)
       \<and> t_extra (testSync (countsTestEnv e a)) = None" for e a
  proof -
    show ?thesis
      using count_comparison
        [of "countsTestEnv e a" a "[1, 1, 1]"
            "[(''log/download_summary_a.json'', 10), (''log/download_summary_b.json'', 20)]"
            "''log/download_summary_b.json''" 20 e]
        h
      by blast
  qed
  show ?thesis
    using c [of 0 0] c [of 100 100] c [of 100 80] c [of 100 120] c [of 50 0]
    by (simp add: passed_def h testResult0_def)
qed

text \<open>
  Claim C4, as amended. In a run that reaches the mark step with zero records downloaded and
  whose \<open>markAsSynced\<close> finds no sync log, \<open>orchestrate\<close> saves a zero-work summary (zero
  records marked) and returns overall success with it when the save succeeds; when the save
  throws, it returns a failure at step \<open>mark\<close>.
\<close>

theorem no_sync_logs_and_zero_download:
  assumes "me_list me (syncLogPrefix (Some (o_workflowId env))) = Inr []"
    and "o_mark env = markAsSynced me (Some (o_workflowId env))"
    and "o_download env = Inr downloadResult" and "d_success downloadResult"
    and "d_totalRecords downloadResult = 0"
    and "s_success (o_sync env 0)"
    and "resyncLoop env (o_test env 0) 0 [CalledDownload, CalledSync, CalledTest] = (Inr cur, retryCount, tr)"
  shows "orchestrate env =
     (case o_saveLog env of
        Inr logFilename \<Rightarrow>
          (\<lparr>r_success = True, r_step = None, r_error = None,
            r_summary = Some (noDataSummary env downloadResult), r_logFilename = Some logFilename\<rparr>,
           tr @ [CalledMark, SaveLog (noDataSummary env downloadResult)])
      | Inl e \<Rightarrow>
          (failedAt ''mark'' (Some e), tr @ [CalledMark, SaveLog (noDataSummary env downloadResult)]))"
proof -
  have m: "o_mark env = markResult0\<lparr>m_error := Some ''No sync log files found''\<rparr>"
    using assms(1,2) by (simp add: markAsSynced_no_logs)
  show ?thesis
    unfolding orchestrate_reaches_mark [OF assms(3,4,6,7)]
    using assms(5)
    by (simp add: markStep_def m markResult0_def noDataSummary_def Let_def split: sum.splits)
qed

theorem no_sync_logs_and_zero_download_witness:
  "me_list noLogsMarkEnv (syncLogPrefix (Some (o_workflowId noDataRun))) = Inr []
   \<and> o_mark noDataRun = markAsSynced noLogsMarkEnv (Some (o_workflowId noDataRun))
   \<and> o_saveLog noDataRun = Inr ''log/sync_log_2026.json''
   \<and> r_success (fst (orchestrate noDataRun))
   \<and> r_summary (fst (orchestrate noDataRun))
        = Some (noDataSummary noDataRun \<lparr>d_success = True, d_totalRecords = 0, d_fileCount = 0, d_files = []\<rparr>)
   \<and> snd (orchestrate noDataRun) =
        [CalledDownload, CalledSync, CalledTest, CalledMark,
         SaveLog (noDataSummary noDataRun \<lparr>d_success = True, d_totalRecords = 0, d_fileCount = 0, d_files = []\<rparr>)]"
proof -
  have l: "me_list noLogsMarkEnv (syncLogPrefix (Some (o_workflowId noDataRun))) = Inr []"
    by (simp add: noLogsMarkEnv_def)
  have m: "o_mark noDataRun = markAsSynced noLogsMarkEnv (Some (o_workflowId noDataRun))"
    by (simp add: noDataRun_fields)
  have r: "resyncLoop noDataRun (o_test noDataRun 0) 0 [CalledDownload, CalledSync, CalledTest]
      = (Inr (o_test noDataRun 0), 0, [CalledDownload, CalledSync, CalledTest])"
    by (rule resyncLoop_done) (simp add: noDataRun_fields test_vals)
  show ?thesis
    using no_sync_logs_and_zero_download [OF l m noDataRun_fields(3) _ _ noDataRun_fields(4) r] l m
    by (simp add: noDataRun_fields(6))
qed

text \<open>
  Claim C4 as stated fails: in a run with zero records downloaded whose mark step reports
  that no sync log was found, a save of the summary that throws makes \<open>orchestrate\<close> return
  a failure at step \<open>mark\<close>.
\<close>

theorem no_sync_logs_success_counterexample:
  "o_mark noDataSaveFailsRun = markAsSynced noLogsMarkEnv (Some (o_workflowId noDataSaveFailsRun))
   \<and> \<not> m_success (o_mark noDataSaveFailsRun)
   \<and> m_error (o_mark noDataSaveFailsRun) = Some ''No sync log files found''
   \<and> o_download noDataSaveFailsRun = Inr \<lparr>d_success = True, d_totalRecords = 0, d_fileCount = 0, d_files = []\<rparr>
   \<and> fst (orchestrate noDataSaveFailsRun) = failedAt ''mark'' (Some ''ServiceUnavailable'')
   \<and> \<not> r_success (fst (orchestrate noDataSaveFailsRun))"
proof -
  have mk: "markAsSynced noLogsMarkEnv (Some ''m1abc'') = markResult0\<lparr>m_error := Some ''No sync log files found''\<rparr>"
    by (rule markAsSynced_no_logs) (simp add: noLogsMarkEnv_def)
  have r: "resyncLoop noDataSaveFailsRun (o_test noDataSaveFailsRun 0) 0 [CalledDownload, CalledSync, CalledTest]
      = (Inr (o_test noDataSaveFailsRun 0), 0, [CalledDownload, CalledSync, CalledTest])"
    by (rule resyncLoop_done) (simp add: noDataSaveFailsRun_fields test_vals)
  have "orchestrate noDataSaveFailsRun =
      markStep noDataSaveFailsRun \<lparr>d_success = True, d_totalRecords = 0, d_fileCount = 0, d_files = []\<rparr>
        (o_sync noDataSaveFailsRun 0) (o_test noDataSaveFailsRun 0) [CalledDownload, CalledSync, CalledTest]"
    by (rule orchestrate_reaches_mark [OF noDataSaveFailsRun_fields(3) _ noDataSaveFailsRun_fields(4) r]) simp
  then have "fst (orchestrate noDataSaveFailsRun) = failedAt ''mark'' (Some ''ServiceUnavailable'')"
    by (simp add: markStep_def noDataSaveFailsRun_fields mk markResult0_def Let_def)
  then show ?thesis
    by (simp add: noDataSaveFailsRun_fields mk markResult0_def failedAt_def)
qed

text \<open>
  Claim C5. The retry loop of \<open>orchestrate\<close>, the same in both files, started after a first
  test: it makes at most 3 resyncs and no more tests than resyncs; when the first test fails
  and the test after one successful resync passes, it ends with \<open>retryCount = 1\<close>; a failed
  resync before the last allowed attempt only moves the loop to the next attempt, and a
  failed resync on the last allowed attempt returns the failure at step \<open>resync\<close>; and when
  the loop ends with a test that still fails, the retries are exhausted and the run calls
  the mark step.
\<close>

theorem resync_loop_at_most_three:
  "loopExit env 0 tr (resyncLoop env testResult 0 tr)
   \<and> MAX_RETRIES = 3
   \<and> (\<not> t_success testResult \<and> s_success (o_sync env (count_list tr CalledSync))
        \<and> t_success (o_test env (count_list tr CalledTest)) \<longrightarrow>
      resyncLoop env testResult 0 tr =
        (Inr (o_test env (count_list tr CalledTest)), 1, tr @ [CalledSync, CalledTest]))
   \<and> (\<not> t_success cur \<and> retryCount + 1 < MAX_RETRIES
        \<and> \<not> s_success (o_sync env (count_list tr CalledSync)) \<longrightarrow>
      resyncLoop env cur retryCount tr = resyncLoop env cur (retryCount + 1) (tr @ [CalledSync]))
   \<and> (\<not> t_success cur \<and> retryCount + 1 = MAX_RETRIES
        \<and> \<not> s_success (o_sync env (count_list tr CalledSync)) \<longrightarrow>
      resyncLoop env cur retryCount tr =
        (Inl (failedAt ''resync'' (Some ''Re-sync failed after max retries'')), MAX_RETRIES, tr @ [CalledSync]))
   \<and> (o_download env = Inr downloadResult \<and> d_success downloadResult \<and> s_success (o_sync env 0)
        \<and> resyncLoop env (o_test env 0) 0 [CalledDownload, CalledSync, CalledTest] = (Inr lastTest, retries, tr')
        \<and> \<not> t_success lastTest \<longrightarrow>
      retries = MAX_RETRIES
      \<and> CalledMark \<in> set (snd (orchestrate env))
      \<and> CalledMark \<in> set (snd (orchestrate_variant env)))"
proof -
  have a: "loopExit env 0 tr (resyncLoop env testResult 0 tr)"
    by (rule resyncLoop_exit) simp
  have b: "resyncLoop env testResult 0 tr =
        (Inr (o_test env (count_list tr CalledTest)), 1, tr @ [CalledSync, CalledTest])"
    if "\<not> t_success testResult" "s_success (o_sync env (count_list tr CalledSync))"
      "t_success (o_test env (count_list tr CalledTest))"
  proof -
    have "resyncLoop env testResult 0 tr =
        resyncLoop env (fst (callTest env (snd (callSync env tr)))) (0 + 1) (snd (callTest env (snd (callSync env tr))))"
      by (rule resyncLoop_retest) (use that in \<open>simp_all add: MAX_RETRIES_def callSync_def\<close>)
    also have "\<dots> = (Inr (fst (callTest env (snd (callSync env tr)))), 0 + 1, snd (callTest env (snd (callSync env tr))))"
      by (rule resyncLoop_done) (use that in \<open>simp add: callTest_def callSync_def\<close>)
    finally show ?thesis by (simp add: callTest_def callSync_def)
  qed
  have c: "resyncLoop env cur retryCount tr = resyncLoop env cur (retryCount + 1) (tr @ [CalledSync])"
    if "\<not> t_success cur" "retryCount + 1 < MAX_RETRIES" "\<not> s_success (o_sync env (count_list tr CalledSync))"
    using resyncLoop_continue [of cur retryCount env tr] that by (simp add: callSync_def)
  have d: "resyncLoop env cur retryCount tr =
        (Inl (failedAt ''resync'' (Some ''Re-sync failed after max retries'')), MAX_RETRIES, tr @ [CalledSync])"
    if "\<not> t_success cur" "retryCount + 1 = MAX_RETRIES" "\<not> s_success (o_sync env (count_list tr CalledSync))"
    using resyncLoop_fatal [of cur retryCount env tr] that by (simp add: callSync_def)
  have e: "retries = MAX_RETRIES \<and> CalledMark \<in> set (snd (orchestrate env))
      \<and> CalledMark \<in> set (snd (orchestrate_variant env))"
    if "o_download env = Inr downloadResult" "d_success downloadResult" "s_success (o_sync env 0)"
      "resyncLoop env (o_test env 0) 0 [CalledDownload, CalledSync, CalledTest] = (Inr lastTest, retries, tr')"
      "\<not> t_success lastTest"
  proof -
    have "loopExit env 0 [CalledDownload, CalledSync, CalledTest] (Inr lastTest, retries, tr')"
      using resyncLoop_exit [of 0 env "[CalledDownload, CalledSync, CalledTest]" "o_test env 0"] that(4) by simp
    then have "retries = MAX_RETRIES" using that(5) by (simp add: loopExit_def)
    moreover have "CalledMark \<in> set (snd (orchestrate env))"
      unfolding orchestrate_reaches_mark [OF that(1-4)] by (rule markStep_calls_mark)
    moreover have "CalledMark \<in> set (snd (orchestrate_variant env))"
      using that(1-4) by (rule orchestrate_variant_calls_mark)
    ultimately show ?thesis by simp
  qed
  show ?thesis using a b c d e by (simp add: MAX_RETRIES_def)
qed

theorem resync_loop_at_most_three_witness:
  "\<not> t_success (o_test oneResyncRun 0) \<and> s_success (o_sync oneResyncRun 1) \<and> t_success (o_test oneResyncRun 1)
   \<and> resyncLoop oneResyncRun (o_test oneResyncRun 0) 0 [CalledDownload, CalledSync, CalledTest] =
       (Inr (o_test oneResyncRun 1), 1, [CalledDownload, CalledSync, CalledTest, CalledSync, CalledTest])
   \<and> resyncLoop testsFailRun (o_test testsFailRun 0) 0 [CalledDownload, CalledSync, CalledTest] =
       (Inr (compareCounts 2 1), 3,
        [CalledDownload, CalledSync, CalledTest, CalledSync, CalledTest, CalledSync, CalledTest,
         CalledSync, CalledTest])
   \<and> \<not> t_success (compareCounts 2 1)
   \<and> CalledMark \<in> set (snd (orchestrate testsFailRun))
   \<and> CalledMark \<in> set (snd (orchestrate_variant testsFailRun))
   \<and> orchestrate resyncsFailRun =
       (failedAt ''resync'' (Some ''Re-sync failed after max retries''),
        [CalledDownload, CalledSync, CalledTest, CalledSync, CalledSync, CalledSync])"
proof -
  have one: "\<not> t_success (o_test oneResyncRun 0)" "s_success (o_sync oneResyncRun 1)"
      "t_success (o_test oneResyncRun 1)"
    by (simp_all add: retry_run_fields test_vals ok_vals)
  have c: "count_list [CalledDownload, CalledSync, CalledTest] CalledSync = 1"
      "count_list [CalledDownload, CalledSync, CalledTest] CalledTest = 1"
    by simp_all
  have l1: "resyncLoop oneResyncRun (o_test oneResyncRun 0) 0 [CalledDownload, CalledSync, CalledTest] =
       (Inr (o_test oneResyncRun 1), 1, [CalledDownload, CalledSync, CalledTest, CalledSync, CalledTest])"
    using resync_loop_at_most_three
        [of oneResyncRun "[CalledDownload, CalledSync, CalledTest]" "o_test oneResyncRun 0"] one
    unfolding c by simp
  have m: "CalledMark \<in> set (snd (orchestrate testsFailRun))
      \<and> CalledMark \<in> set (snd (orchestrate_variant testsFailRun))"
    using resync_loop_at_most_three
        [of testsFailRun _ _ _ _ okDownload "compareCounts 2 1" 3
            "[CalledDownload, CalledSync, CalledTest, CalledSync, CalledTest, CalledSync, CalledTest,
              CalledSync, CalledTest]"]
      testsFailRun_loop
    by (simp add: retry_run_fields ok_vals test_vals)
  have f: "orchestrate resyncsFailRun =
       (failedAt ''resync'' (Some ''Re-sync failed after max retries''),
        [CalledDownload, CalledSync, CalledTest, CalledSync, CalledSync, CalledSync])"
    using resyncsFailRun_loop
    by (simp add: orchestrate_def callSync_def callTest_def retry_run_fields ok_vals Let_def)
  show ?thesis using one l1 m f testsFailRun_loop test_vals(2) by simp
qed

text \<open>
  Claim C6. When the bulk request for the window at \<open>i\<close> throws, the loop appends exactly the
  request, a 2000 ms sleep and one more request with the same body; it adds nothing when the
  retry throws too, the number of items of the retry whose status is in 200..299 when the
  retry reports errors, and the size of the window otherwise; and it goes on with the window
  at \<open>i + finalBatchSize\<close>.
\<close>

theorem bulk_window_retried_once:
  assumes "i < length records" and "0 < finalBatchSize"
    and "body = bulkBody (take finalBatchSize (drop i records))"
    and "os_bulk env tr body = Inl e"
  shows "batchLoop env records finalBatchSize i (syncedCount, tr) =
           batchLoop env records finalBatchSize (i + finalBatchSize)
             (syncedCount +
                (case os_bulk env (tr @ [BulkRequest body, Sleep 2000]) body of
                   Inl retryError \<Rightarrow> 0
                 | Inr retryResponse \<Rightarrow>
                     if errors retryResponse
                     then length (filter itemSucceeded
                            (case items retryResponse of None \<Rightarrow> [] | Some its \<Rightarrow> its))
                     else length (take finalBatchSize (drop i records))),
              tr @ [BulkRequest body, Sleep 2000, BulkRequest body])
       \<and> (\<forall>item. itemSucceeded item \<longleftrightarrow>
             (\<exists>action. itemAction item = Some action \<and> 200 \<le> status action \<and> status action \<le> 299))"
proof -
  let ?batch = "take finalBatchSize (drop i records)"
  have w: "bulkWindow env ?batch (syncedCount, tr) =
      (syncedCount +
         (case os_bulk env (tr @ [BulkRequest body, Sleep 2000]) body of
            Inl retryError \<Rightarrow> 0
          | Inr retryResponse \<Rightarrow>
              if errors retryResponse
              then length (filter itemSucceeded
                     (case items retryResponse of None \<Rightarrow> [] | Some its \<Rightarrow> its))
              else length ?batch),
       tr @ [BulkRequest body, Sleep 2000, BulkRequest body])"
    using assms(3,4)
    by (simp add: bulkWindow_def Let_def confirmed_def successItems_def split: sum.splits)
  have "batchLoop env records finalBatchSize i (syncedCount, tr)
      = batchLoop env records finalBatchSize (i + finalBatchSize) (bulkWindow env ?batch (syncedCount, tr))"
    using assms(1,2) by (subst batchLoop_unfold) simp_all
  moreover have "itemSucceeded item \<longleftrightarrow>
      (\<exists>action. itemAction item = Some action \<and> 200 \<le> status action \<and> status action \<le> 299)" for item
    by (cases "itemAction item") (auto simp: itemSucceeded_def)
  ultimately show ?thesis unfolding w by blast
qed

theorem bulk_window_retried_once_witness:
  "0 < length twoRecords
   \<and> os_bulk flakyEnv [] (bulkBody twoRecords) = Inl ''socket hang up''
   \<and> os_bulk flakyEnv ([] @ [BulkRequest (bulkBody twoRecords), Sleep 2000]) (bulkBody twoRecords)
       = Inr \<lparr>errors = True, items = Some [item201, item429]\<rparr>
   \<and> batchLoop flakyEnv twoRecords 2 0 (0, []) =
       (1, [BulkRequest (bulkBody twoRecords), Sleep 2000, BulkRequest (bulkBody twoRecords)])"
proof -
  have l: "0 < length twoRecords" and t: "take 2 (drop 0 twoRecords) = twoRecords"
    by (simp_all add: twoRecords_def)
  have b: "bulkBody twoRecords = bulkBody (take 2 (drop 0 twoRecords))" using t by simp
  have e: "os_bulk flakyEnv [] (bulkBody twoRecords) = Inl ''socket hang up''"
    by (simp add: flakyEnv_def flakyBulk_def)
  have r: "os_bulk flakyEnv ([] @ [BulkRequest (bulkBody twoRecords), Sleep 2000]) (bulkBody twoRecords)
       = Inr \<lparr>errors = True, items = Some [item201, item429]\<rparr>"
    by (simp add: flakyEnv_def flakyBulk_def)
  have s: "filter itemSucceeded [item201, item429] = [item201]"
    by (simp add: itemSucceeded_def itemAction_def item201_def item429_def)
  have n: "batchLoop flakyEnv twoRecords 2 (0 + 2) st = st" for st
    by (subst batchLoop_unfold) (simp_all add: twoRecords_def)
  have c: "(case os_bulk flakyEnv ([] @ [BulkRequest (bulkBody twoRecords), Sleep 2000]) (bulkBody twoRecords) of
              Inl retryError \<Rightarrow> 0
            | Inr retryResponse \<Rightarrow>
                if errors retryResponse
                then length (filter itemSucceeded
                       (case items retryResponse of None \<Rightarrow> [] | Some its \<Rightarrow> its))
                else length (take 2 (drop 0 twoRecords))) = 1"
    unfolding r using s by simp
  have "batchLoop flakyEnv twoRecords 2 0 (0, []) =
          batchLoop flakyEnv twoRecords 2 (0 + 2)
            (0 + 1, [] @ [BulkRequest (bulkBody twoRecords), Sleep 2000, BulkRequest (bulkBody twoRecords)])"
    using bulk_window_retried_once [of 0 twoRecords 2 "bulkBody twoRecords" flakyEnv "[]" "''socket hang up''" 0,
        THEN conjunct1] l b e
    unfolding c by simp
  then have "batchLoop flakyEnv twoRecords 2 0 (0, []) =
      (1, [BulkRequest (bulkBody twoRecords), Sleep 2000, BulkRequest (bulkBody twoRecords)])"
    unfolding n by simp
  then show ?thesis using l e r by blast
qed

text \<open>
  Claim C7, as amended. In \<open>cleanS3\<close> the first deletion that throws ends the deletion loop:
  when the objects \<open>before\<close> are deleted and the deletion of \<open>file\<close> throws, the objects
  \<open>rest\<close> are not attempted, no cleanup record is written, and the stage reports failure
  with that error.
\<close>

theorem cleanS3_stops_at_failed_deletion:
  assumes "s3_list env tr [] = Inr files"
    and "filter (\<lambda>key. \<not> str_includes key ''summary'' \<and> \<not> str_includes key ''log/'') files = before @ file # rest"
    and "\<forall>k < length before. \<exists>u.
           s3_delete env (tr @ ListObjects [] # map DeleteObject (take k before)) (before ! k) = Inr u"
    and "s3_delete env (tr @ ListObjects [] # map DeleteObject before) file = Inl e"
  shows "cleanS3 env tr =
           (cleanFailed e, tr @ ListObjects [] # map DeleteObject before @ [DeleteObject file])"
proof -
  have "deleteLoop env (before @ file # rest) 0 (tr @ [ListObjects []])
          = (Inl e, (tr @ [ListObjects []]) @ map DeleteObject before @ [DeleteObject file])"
    by (rule deleteLoop_stops) (use assms(3,4) in simp_all)
  then show ?thesis using assms(1,2) by (simp add: cleanS3_def Let_def)
qed

theorem cleanS3_stops_at_failed_deletion_witness:
  "s3_list lockedSecondEnv [] [] =
     Inr [''unsynced_0001.jsonl'', ''log/sync_log_1.json'', ''unsynced_0002.jsonl'', ''unsynced_0003.jsonl'']
   \<and> s3_delete lockedSecondEnv [ListObjects []] ''unsynced_0001.jsonl'' = Inr ()
   \<and> s3_delete lockedSecondEnv [ListObjects [], DeleteObject ''unsynced_0001.jsonl''] ''unsynced_0002.jsonl''
       = Inl ''AccessDenied''
   \<and> cleanS3 lockedSecondEnv [] =
       (cleanFailed ''AccessDenied'',
        [ListObjects [], DeleteObject ''unsynced_0001.jsonl'', DeleteObject ''unsynced_0002.jsonl''])"
proof -
  have l: "s3_list lockedSecondEnv [] [] =
     Inr [''unsynced_0001.jsonl'', ''log/sync_log_1.json'', ''unsynced_0002.jsonl'', ''unsynced_0003.jsonl'']"
    by (simp add: lockedSecondEnv_def)
  have f: "filter (\<lambda>key. \<not> str_includes key ''summary'' \<and> \<not> str_includes key ''log/'')
             [''unsynced_0001.jsonl'', ''log/sync_log_1.json'', ''unsynced_0002.jsonl'', ''unsynced_0003.jsonl'']
           = [''unsynced_0001.jsonl''] @ ''unsynced_0002.jsonl'' # [''unsynced_0003.jsonl'']"
    by simp
  have d1: "s3_delete lockedSecondEnv tr' ''unsynced_0001.jsonl'' = Inr ()" for tr'
    by (simp add: lockedSecondEnv_def)
  have d2: "s3_delete lockedSecondEnv ([] @ ListObjects [] # map DeleteObject [''unsynced_0001.jsonl''])
              ''unsynced_0002.jsonl'' = Inl ''AccessDenied''"
    by (simp add: lockedSecondEnv_def)
  have s: "\<forall>k < length [''unsynced_0001.jsonl'']. \<exists>u.
           s3_delete lockedSecondEnv ([] @ ListObjects [] # map DeleteObject (take k [''unsynced_0001.jsonl'']))
             ([''unsynced_0001.jsonl''] ! k) = Inr u"
    by (simp add: d1)
  show ?thesis using cleanS3_stops_at_failed_deletion [OF l f s d2] l d1 d2 by simp
qed

text \<open>
  Claim C7 as stated fails: with two objects to delete and a store that refuses the first,
  the listing succeeds, the second object is never attempted and the stage fails.
\<close>

theorem deletion_continues_past_failure_counterexample:
  "s3_list lockedFirstEnv [] [] = Inr [''unsynced_0001.jsonl'', ''unsynced_0002.jsonl'']
   \<and> s3_delete lockedFirstEnv [ListObjects []] ''unsynced_0001.jsonl'' = Inl ''AccessDenied''
   \<and> cleanS3 lockedFirstEnv [] =
       (cleanFailed ''AccessDenied'', [ListObjects [], DeleteObject ''unsynced_0001.jsonl''])
   \<and> DeleteObject ''unsynced_0002.jsonl'' \<notin> set (snd (cleanS3 lockedFirstEnv []))
   \<and> \<not> c_success (fst (cleanS3 lockedFirstEnv []))"
  by (simp add: cleanS3_def lockedFirstEnv_def sampleEnv_def Let_def cleanFailed_def)

text \<open>
  Claim C8, evaluated on a run in which download, sync, test, mark and clean all report
  success and the summary is saved. \<open>orchestrate\<close> of 06\_orchestrate.js saves one summary,
  without the result of the mark stage, and returns the failure of the outer catch with the
  message of a \<open>TypeError\<close>, so the process exits with code 1. The variant of src/unnamed/part\_000 saves one summary holding
  the results of the five stages and the duration, and returns success (exit code 0).
\<close>

theorem all_stages_succeed_evaluation:
  "d_success okDownload \<and> s_success (o_sync allOkRun 0) \<and> t_success (o_test allOkRun 0)
   \<and> m_success (o_mark allOkRun) \<and> c_success (o_clean allOkRun)
   \<and> o_saveLog allOkRun = Inr ''log/sync_log_2026.json''
   \<and> orchestrate allOkRun =
       (uncaught TYPE_ERROR_totalUpdated,
        [CalledDownload, CalledSync, CalledTest, CalledMark, CalledClean,
         SaveLog (nominalSummary allOkRun okDownload None)])
   \<and> \<not> r_success (fst (orchestrate allOkRun))
   \<and> exitCode (fst (orchestrate allOkRun)) = 1
   \<and> sm_mark (nominalSummary allOkRun okDownload None) = None
   \<and> orchestrate_variant allOkRun =
       (\<lparr>r_success = True, r_step = None, r_error = None,
         r_summary = Some (nominalSummary allOkRun okDownload (Some okMark)),
         r_logFilename = Some ''log/sync_log_2026.json''\<rparr>,
        [CalledDownload, CalledSync, CalledTest, CalledMark, CalledClean,
         SaveLog (nominalSummary allOkRun okDownload (Some okMark))])
   \<and> exitCode (fst (orchestrate_variant allOkRun)) = 0
   \<and> sm_duration (nominalSummary allOkRun okDownload (Some okMark)) = Some 60000"
proof -
  have r: "resyncLoop allOkRun (o_test allOkRun 0) 0 [CalledDownload, CalledSync, CalledTest]
      = (Inr (o_test allOkRun 0), 0, [CalledDownload, CalledSync, CalledTest])"
    by (rule resyncLoop_done) (simp add: allOkRun_fields test_vals)
  have s: "s_success (o_sync allOkRun 0)" by (simp add: allOkRun_fields ok_vals)
  have o: "orchestrate allOkRun =
       (uncaught TYPE_ERROR_totalUpdated,
        [CalledDownload, CalledSync, CalledTest, CalledMark, CalledClean,
         SaveLog (nominalSummary allOkRun okDownload None)])"
    unfolding orchestrate_reaches_mark [OF allOkRun_fields(1) ok_vals(1) s r]
    by (simp add: markStep_def cleanAndLog_def nominalSummary_def allOkRun_fields ok_vals Let_def)
  have v: "orchestrate_variant allOkRun =
       (\<lparr>r_success = True, r_step = None, r_error = None,
         r_summary = Some (nominalSummary allOkRun okDownload (Some okMark)),
         r_logFilename = Some ''log/sync_log_2026.json''\<rparr>,
        [CalledDownload, CalledSync, CalledTest, CalledMark, CalledClean,
         SaveLog (nominalSummary allOkRun okDownload (Some okMark))])"
    unfolding orchestrate_variant_reaches_mark [OF allOkRun_fields(1) ok_vals(1) s r]
    by (simp add: cleanAndLog_def nominalSummary_def allOkRun_fields ok_vals Let_def)
  show ?thesis
    unfolding o v
    by (simp add: allOkRun_fields ok_vals test_vals uncaught_def nominalSummary_def exitCode_def)
qed

text \<open>
  Claim C9. For every non-empty record list the batch size selected by the probe is at least
  1. When the payload of the first record alone is above the 2 MB ceiling, the selected size
  is 1, and the first bulk request \<open>dynamicMicroBatch\<close> sends holds exactly that record, with
  a payload above the ceiling.
\<close>

theorem batch_size_at_least_one:
  assumes "records \<noteq> []"
  shows "1 \<le> probeBatchSize records
       \<and> (\<not> probeFits records 1 \<longrightarrow>
            probeBatchSize records = 1
          \<and> \<not> fitsPayload (payloadSize (bulkBody [hd records]))
          \<and> (\<exists>rest. snd (dynamicMicroBatch env records tr)
                      = tr @ BulkRequest (bulkBody [hd records]) # rest))"
proof -
  have t: "take 1 records = [hd records]" using assms by (cases records) simp_all
  have "\<not> probeFits records 1 \<Longrightarrow> \<not> fitsPayload (payloadSize (bulkBody [hd records]))"
    unfolding probeFits_def t .
  moreover have "\<not> probeFits records 1 \<Longrightarrow>
      \<exists>rest. snd (dynamicMicroBatch env records tr) = tr @ BulkRequest (bulkBody [hd records]) # rest"
    using dynamicMicroBatch_first_request [OF assms, of env tr] probeBatchSize_oversized [of records] t
    by simp
  ultimately show ?thesis
    using probeBatchSize_ge_1 [of records] probeBatchSize_oversized [of records] by blast
qed

theorem batch_size_at_least_one_witness:
  "oversizedBlob \<noteq> [] \<and> \<not> probeFits oversizedBlob 1 \<and> probeBatchSize oversizedBlob = 1
   \<and> \<not> fitsPayload (payloadSize (bulkBody [hd oversizedBlob]))
   \<and> (\<exists>rest. snd (dynamicMicroBatch sampleEnv oversizedBlob [])
               = [] @ BulkRequest (bulkBody [hd oversizedBlob]) # rest)"
proof -
  have ne: "oversizedBlob \<noteq> []" by (simp add: oversizedBlob_def)
  show ?thesis
    using batch_size_at_least_one [OF ne, of sampleEnv "[]"] oversized_not_fits ne by blast
qed

text \<open>
  Claim C10. A failed \<open>syncFile\<close> reports zero synced records and no identifiers.
  \<open>syncAll\<close> reports failure if and only if the listing throws or the write of the
  checkpoint log throws; whatever happens to a file, every file of the sorted listing is
  attempted.
\<close>

theorem syncAll_fails_only_on_listing_or_log_write:
  "(\<not> f_success (fst (syncFile env filename tr0)) \<longrightarrow>
      f_syncedRecords (fst (syncFile env filename tr0)) = 0 \<and> f_syncedIds (fst (syncFile env filename tr0)) = [])
   \<and> ((\<not> s_success (fst (syncAll env workflowId tr))) \<longleftrightarrow>
        (\<exists>e. s3_list env tr ''unsynced_'' = Inl e)
      \<or> (\<exists>tr2 key body e. snd (syncAll env workflowId tr) = tr2 @ [PutObject key body]
                           \<and> s3_put env tr2 key = Inl e))
   \<and> (s3_list env tr ''unsynced_'' = Inr listed \<and> listed \<noteq> [] \<and> k \<in> set (localeSort env listed) \<longrightarrow>
        GetObject k \<in> set (snd (syncAll env workflowId tr)))"
  using syncFile_failure_zero [of env filename tr0] syncAll_outcome [of env workflowId tr]
    syncAll_attempts_all [of env tr listed k workflowId]
  by blast

theorem syncAll_fails_only_on_listing_or_log_write_witness:
  "\<not> f_success (fst (syncFile sampleEnv ''unsynced_0002.jsonl'' []))
   \<and> f_syncedRecords (fst (syncFile sampleEnv ''unsynced_0002.jsonl'' [])) = 0
   \<and> f_syncedIds (fst (syncFile sampleEnv ''unsynced_0002.jsonl'' [])) = []
   \<and> s_success (fst (syncAll sampleEnv None []))
   \<and> s_syncedFiles (fst (syncAll sampleEnv None [])) = 1
   \<and> s_totalFiles (fst (syncAll sampleEnv None [])) = Some 2
   \<and> GetObject ''unsynced_0002.jsonl'' \<in> set (snd (syncAll sampleEnv None []))
   \<and> s_success (fst (syncAll unreadableEnv None []))
   \<and> s_syncedFiles (fst (syncAll unreadableEnv None [])) = 0"
proof -
  have f: "\<not> f_success (fst (syncFile sampleEnv ''unsynced_0002.jsonl'' []))"
    by (simp add: syncFile_sample_2)
  have l: "s3_list sampleEnv [] ''unsynced_'' = Inr [''unsynced_0001.jsonl'', ''unsynced_0002.jsonl'']"
    by (simp add: sampleEnv_def)
  have m: "''unsynced_0002.jsonl'' \<in> set (localeSort sampleEnv [''unsynced_0001.jsonl'', ''unsynced_0002.jsonl''])"
    by (simp add: sampleEnv_def)
  have "f_syncedRecords (fst (syncFile sampleEnv ''unsynced_0002.jsonl'' [])) = 0
      \<and> f_syncedIds (fst (syncFile sampleEnv ''unsynced_0002.jsonl'' [])) = []
      \<and> GetObject ''unsynced_0002.jsonl'' \<in> set (snd (syncAll sampleEnv None []))"
    using syncAll_fails_only_on_listing_or_log_write
      [of sampleEnv "''unsynced_0002.jsonl''" "[]" None "[]" "[''unsynced_0001.jsonl'', ''unsynced_0002.jsonl'']"
          "''unsynced_0002.jsonl''"] f l m
    by blast
  then show ?thesis using f by (simp add: syncAll_sample syncAll_unreadable)
qed

end
